theory Spec2Isabelle
  imports Complex_Main "HOL-Library.List_Lexorder" "HOL-Library.Char_ord"
begin

section \<open>Values, errors and the outside world\<close>

text \<open>
  The script \<^verbatim>\<open>air_quality_geospatial_analysis.py\<close> is a single pass over a fixed
  city list.  Everything it reads (three CSV files, one boundary archive, one HTTP
  endpoint, one environment variable) is collected in a record \<open>env\<close>; the functions
  below take that record and return what the Python returns, with every exception the
  Python can raise written as \<open>Inl\<close> of a sum type.

  Python floats and NumPy float64 values are idealised as \<open>real\<close>; the missing-value
  sentinel (\<^verbatim>\<open>float("nan")\<close>, \<^verbatim>\<open>NaN\<close>, \<^verbatim>\<open>NaT\<close>) is the cell \<open>NA\<close>.  A cell
  \<open>Sr vs\<close> holds a pandas Series with the values \<open>vs\<close>, which is what a cell holds
  when the script stores the result of \<^verbatim>\<open>DataFrame.mean()\<close> in it.
\<close>

datatype error =
    KeyError string
  | AttributeError string
  | TypeError
  | ValueError
  | RequestException
  | HTTPError
  | JSONDecodeError
  | ReadError

datatype timestamp = Timestamp (ts_year: int) (ts_month: nat) (ts_day: nat)

type_synonym point = "real \<times> real"
type_synonym polygon = "point list"

datatype cell =
    S string
  | I int
  | N real
  | D timestamp
  | Pt real real
  | Poly polygon
  | Sr "cell list"
  | NA

type_synonym column = "cell list"

text \<open>A data frame, column by column: the labels in order, each with its values.\<close>

type_synonym frame = "(string \<times> column) list"

text \<open>A file on disk: not there, there but not loadable, or loaded.\<close>

datatype 'a disk_file = Absent | Unreadable | Contents 'a

text \<open>Sequencing of fallible steps: the first exception ends the computation.\<close>

definition bindE :: "error + 'a \<Rightarrow> ('a \<Rightarrow> error + 'b) \<Rightarrow> error + 'b" where
  "bindE m f = (case m of Inl e \<Rightarrow> Inl e | Inr x \<Rightarrow> f x)"

fun mapE :: "('a \<Rightarrow> error + 'b) \<Rightarrow> 'a list \<Rightarrow> error + 'b list" where
  "mapE f [] = Inr []"
| "mapE f (x # xs) = bindE (f x) (\<lambda>y. bindE (mapE f xs) (\<lambda>ys. Inr (y # ys)))"

subsection \<open>Strings\<close>

text \<open>
  \<^verbatim>\<open>str.lower\<close> and \<^verbatim>\<open>str.upper\<close> on the ASCII letters.  The script only compares the
  result with ASCII words, and no character outside ASCII maps to a letter of those
  words, so the other characters are left as they are.
\<close>

definition lower_char :: "char \<Rightarrow> char" where
  "lower_char c =
     (case map_of (zip ''ABCDEFGHIJKLMNOPQRSTUVWXYZ'' ''abcdefghijklmnopqrstuvwxyz'') c of
        Some d \<Rightarrow> d | None \<Rightarrow> c)"

definition upper_char :: "char \<Rightarrow> char" where
  "upper_char c =
     (case map_of (zip ''abcdefghijklmnopqrstuvwxyz'' ''ABCDEFGHIJKLMNOPQRSTUVWXYZ'') c of
        Some d \<Rightarrow> d | None \<Rightarrow> c)"

definition lower :: "string \<Rightarrow> string" where
  "lower s = map lower_char s"

definition upper :: "string \<Rightarrow> string" where
  "upper s = map upper_char s"

definition startswith :: "string \<Rightarrow> string \<Rightarrow> bool" where
  "startswith s p = (take (length p) s = p)"

section \<open>The point observation fetcher\<close>

datatype json =
    JNull
  | JBool bool
  | JNum real
  | JStr string
  | JArr "json list"
  | JObj "(string \<times> json) list"

text \<open>
  What \<^verbatim>\<open>requests.get\<close> does with a request: it raises (no connection, timeout), or it
  returns a response.  Of the response the script uses two things: whether
  \<^verbatim>\<open>raise_for_status()\<close> raises for its status code, and what \<^verbatim>\<open>json()\<close> makes of its
  body (\<open>None\<close>: the body is not JSON and \<^verbatim>\<open>json()\<close> raises).
\<close>

datatype http_outcome =
    RequestFailed
  | Response (status_error: bool) (body: "json option")

record request =
  coordinates :: point
  radius :: int
  parameter :: string
  limit :: int
  api_key :: "string option"

definition RADIUS_KM :: int where
  "RADIUS_KM = 25"

text \<open>\<^verbatim>\<open>x.get(k, d)\<close>: only a dict has the method.\<close>

definition dict_get :: "json \<Rightarrow> string \<Rightarrow> json \<Rightarrow> error + json" where
  "dict_get x k d =
     (case x of
        JObj kvs \<Rightarrow> Inr (case map_of kvs k of Some v \<Rightarrow> v | None \<Rightarrow> d)
      | _ \<Rightarrow> Inl (AttributeError ''get''))"

text \<open>
  \<^verbatim>\<open>for y in x\<close>: a list gives its elements, a dict its keys, a string its characters;
  nothing else is iterable.
\<close>

definition py_iter :: "json \<Rightarrow> error + json list" where
  "py_iter x =
     (case x of
        JArr xs \<Rightarrow> Inr xs
      | JObj kvs \<Rightarrow> Inr (map (\<lambda>kv. JStr (fst kv)) kvs)
      | JStr s \<Rightarrow> Inr (map (\<lambda>c. JStr [c]) s)
      | _ \<Rightarrow> Inl TypeError)"

text \<open>\<^verbatim>\<open>m["value"]\<close>: a dict with the key; a missing key and every other value raise.\<close>

definition subscript :: "json \<Rightarrow> string \<Rightarrow> error + json" where
  "subscript m k =
     (case m of
        JObj kvs \<Rightarrow> (case map_of kvs k of Some v \<Rightarrow> Inr v | None \<Rightarrow> Inl (KeyError k))
      | _ \<Rightarrow> Inl TypeError)"

text \<open>
  The comprehension
  \<^verbatim>\<open>[m["value"] for loc in data.get("results", []) for m in loc.get("measurements", [])]\<close>.
\<close>

definition measurement_values :: "json \<Rightarrow> error + json list" where
  "measurement_values data =
     bindE (dict_get data ''results'' (JArr [])) (\<lambda>results.
     bindE (py_iter results) (\<lambda>locs.
     bindE (mapE (\<lambda>loc.
              bindE (dict_get loc ''measurements'' (JArr [])) (\<lambda>measurements.
              bindE (py_iter measurements) (\<lambda>ms.
              mapE (\<lambda>m. subscript m ''value'') ms))) locs) (\<lambda>vss.
     Inr (concat vss))))"

text \<open>\<^verbatim>\<open>sum(values)\<close>, from 0: numbers add (a bool counts 0 or 1), anything else raises.\<close>

fun py_sum :: "json list \<Rightarrow> error + real" where
  "py_sum [] = Inr 0"
| "py_sum (JNum x # vs) = bindE (py_sum vs) (\<lambda>s. Inr (x + s))"
| "py_sum (JBool b # vs) = bindE (py_sum vs) (\<lambda>s. Inr ((if b then 1 else 0) + s))"
| "py_sum (_ # vs) = Inl TypeError"

text \<open>The body of the \<^verbatim>\<open>try\<close> block of \<^verbatim>\<open>get_pm25_latest\<close>.\<close>

definition pm25_try :: "(request \<Rightarrow> http_outcome) \<Rightarrow> request \<Rightarrow> error + cell" where
  "pm25_try http_get params =
     (case http_get params of
        RequestFailed \<Rightarrow> Inl RequestException
      | Response bad b \<Rightarrow>
          if bad then Inl HTTPError
          else (case b of
                  None \<Rightarrow> Inl JSONDecodeError
                | Some data \<Rightarrow>
                    bindE (measurement_values data) (\<lambda>values.
                      if values = [] then Inr NA
                      else bindE (py_sum values) (\<lambda>s. Inr (N (s / real (length values)))))))"

definition pm25_params :: "real \<Rightarrow> real \<Rightarrow> string option \<Rightarrow> request" where
  "pm25_params lat lon key =
     \<lparr> coordinates = (lat, lon), radius = RADIUS_KM * 1000, parameter = ''pm25'', limit = 100,
       api_key = (case key of Some k \<Rightarrow> if k = [] then None else Some k | None \<Rightarrow> None) \<rparr>"

definition get_pm25_latest ::
  "(request \<Rightarrow> http_outcome) \<Rightarrow> real \<Rightarrow> real \<Rightarrow> string option \<Rightarrow> cell" where
  "get_pm25_latest http_get lat lon key =
     (case pm25_try http_get (pm25_params lat lon key) of Inl e \<Rightarrow> NA | Inr v \<Rightarrow> v)"

section \<open>Data frames\<close>

text \<open>
  The pandas operations the script uses, on frames stored column by column.  Row labels
  (the index) are not modelled: the script never reads them.  A label can occur more
  than once in a frame; \<^verbatim>\<open>df[[...]]\<close> and \<^verbatim>\<open>df.name\<close> then deliver every column
  under it.  The script applies \<^verbatim>\<open>df[name]\<close> only to labels that occur once in the
  table at hand (\<^verbatim>\<open>date\<close>, the coordinate columns, \<^verbatim>\<open>geometry\<close>, the keys of the
  group-by and of the merge); \<open>getitem\<close> reads the first column under the label.
\<close>

definition columns :: "frame \<Rightarrow> string list" where
  "columns df = map fst df"

definition nrows :: "frame \<Rightarrow> nat" where
  "nrows df = (case df of [] \<Rightarrow> 0 | cv # _ \<Rightarrow> length (snd cv))"

text \<open>\<^verbatim>\<open>df.empty\<close>: one of the two axes has length 0.\<close>

definition empty_frame :: "frame \<Rightarrow> bool" where
  "empty_frame df = (df = [] \<or> nrows df = 0)"

text \<open>\<^verbatim>\<open>df[name]\<close> raises KeyError when the label is missing.\<close>

definition getitem :: "frame \<Rightarrow> string \<Rightarrow> error + column" where
  "getitem df name = (case map_of df name of Some c \<Rightarrow> Inr c | None \<Rightarrow> Inl (KeyError name))"

text \<open>
  \<^verbatim>\<open>df.name\<close>: AttributeError when the label is missing, the column (a Series) when the
  label occurs once, and the sub-frame of all the columns under the label when it occurs
  more than once.
\<close>

datatype selection = Column column | SubFrame frame

definition getattr :: "frame \<Rightarrow> string \<Rightarrow> error + selection" where
  "getattr df name =
     (case filter (\<lambda>cv. fst cv = name) df of
        [] \<Rightarrow> Inl (AttributeError name)
      | [cv] \<Rightarrow> Inr (Column (snd cv))
      | cvs \<Rightarrow> Inr (SubFrame cvs))"

text \<open>
  Where the script compares \<^verbatim>\<open>df.name\<close> with a value to get a row mask, or hands it on
  as a list of keys, it needs one column.  A table read from a file has every label
  once (\<^verbatim>\<open>read_csv\<close> renames a repeated header), so in a run these lookups find one
  column or none; on a sub-frame the model raises ValueError.  The one label a run can
  meet twice is \<^verbatim>\<open>emissions\<close>, after the rename of the normalizer, and it is looked up
  at line 107 only, where the model follows pandas.
\<close>

definition getattr_series :: "frame \<Rightarrow> string \<Rightarrow> error + column" where
  "getattr_series df name =
     bindE (getattr df name) (\<lambda>sel. case sel of Column c \<Rightarrow> Inr c | SubFrame f \<Rightarrow> Inl ValueError)"

text \<open>\<^verbatim>\<open>df[name] = col\<close>: an existing label keeps its place, a new one goes last.\<close>

definition setitem :: "frame \<Rightarrow> string \<Rightarrow> column \<Rightarrow> frame" where
  "setitem df name col =
     (if name \<in> set (columns df)
      then map (\<lambda>cv. if fst cv = name then (name, col) else cv) df
      else df @ [(name, col)])"

text \<open>
  \<^verbatim>\<open>df.rename(columns={key: new})\<close> with pandas' default \<^verbatim>\<open>errors="ignore"\<close>: a key that
  is no label of the frame is skipped, nothing is raised.  The key is optional because
  the script passes what \<^verbatim>\<open>next(..., None)\<close> returned; labels are strings, so the key
  \<^verbatim>\<open>None\<close> matches none of them.
\<close>

definition rename_columns :: "frame \<Rightarrow> string option \<Rightarrow> string \<Rightarrow> frame" where
  "rename_columns df key new = map (\<lambda>cv. if Some (fst cv) = key then (new, snd cv) else cv) df"

text \<open>\<^verbatim>\<open>df[mask]\<close> with a boolean mask: the rows where the mask holds, in order.\<close>

definition take_mask :: "bool list \<Rightarrow> 'a list \<Rightarrow> 'a list" where
  "take_mask keep xs = map fst (filter snd (zip xs keep))"

definition keep_rows :: "frame \<Rightarrow> bool list \<Rightarrow> frame" where
  "keep_rows df keep = map (\<lambda>cv. (fst cv, take_mask keep (snd cv))) df"

definition isna :: "cell \<Rightarrow> bool" where
  "isna c = (c = NA)"

text \<open>\<^verbatim>\<open>df.dropna(subset=labels)\<close>: the rows with a missing value under one of the labels go.\<close>

definition notna_mask :: "nat \<Rightarrow> column list \<Rightarrow> bool list" where
  "notna_mask n cols =
     foldr (\<lambda>c m. map (\<lambda>xb. \<not> isna (fst xb) \<and> snd xb) (zip c m)) cols (replicate n True)"

definition dropna :: "frame \<Rightarrow> string list \<Rightarrow> error + frame" where
  "dropna df labels =
     bindE (mapE (getitem df) labels) (\<lambda>cols. Inr (keep_rows df (notna_mask (nrows df) cols)))"

text \<open>\<^verbatim>\<open>df[[l1, l2, ...]]\<close>: the columns under these labels, in this order; KeyError when a
  label is missing.\<close>

definition pick :: "frame \<Rightarrow> string \<Rightarrow> error + frame" where
  "pick df l = (case filter (\<lambda>cv. fst cv = l) df of [] \<Rightarrow> Inl (KeyError l) | cs \<Rightarrow> Inr cs)"

definition select :: "frame \<Rightarrow> string list \<Rightarrow> error + frame" where
  "select df labels = bindE (mapE (pick df) labels) (\<lambda>css. Inr (concat css))"

text \<open>\<^verbatim>\<open>df.drop(columns=l)\<close>: KeyError when the label is missing.\<close>

definition drop_column :: "frame \<Rightarrow> string \<Rightarrow> error + frame" where
  "drop_column df l =
     (if l \<in> set (columns df) then Inr (filter (\<lambda>cv. fst cv \<noteq> l) df) else Inl (KeyError l))"

text \<open>Elementwise \<^verbatim>\<open>==\<close>: a missing value equals nothing, an int equals the float of
  the same value, values of different kinds differ.\<close>

fun py_eq :: "cell \<Rightarrow> cell \<Rightarrow> bool" where
  "py_eq (S a) (S b) = (a = b)"
| "py_eq (I a) (I b) = (a = b)"
| "py_eq (N a) (N b) = (a = b)"
| "py_eq (I a) (N b) = (real_of_int a = b)"
| "py_eq (N a) (I b) = (a = real_of_int b)"
| "py_eq (D a) (D b) = (a = b)"
| "py_eq _ _ = False"

text \<open>Key equality of \<^verbatim>\<open>isin\<close> and \<^verbatim>\<open>merge\<close>: as \<^verbatim>\<open>==\<close>, and missing matches missing.\<close>

definition key_eq :: "cell \<Rightarrow> cell \<Rightarrow> bool" where
  "key_eq a b = (py_eq a b \<or> (isna a \<and> isna b))"

definition isin :: "column \<Rightarrow> column \<Rightarrow> bool list" where
  "isin col vals = map (\<lambda>c. list_ex (key_eq c) vals) col"

text \<open>
  \<^verbatim>\<open>Series.mean()\<close>: missing values are skipped; no value left gives NaN; text (or a
  date, or a geometry) among the values raises.
\<close>

fun numeric_values :: "column \<Rightarrow> error + real list" where
  "numeric_values [] = Inr []"
| "numeric_values (I i # cs) = bindE (numeric_values cs) (\<lambda>xs. Inr (real_of_int i # xs))"
| "numeric_values (N x # cs) = bindE (numeric_values cs) (\<lambda>xs. Inr (x # xs))"
| "numeric_values (NA # cs) = numeric_values cs"
| "numeric_values (_ # cs) = Inl TypeError"

definition mean :: "column \<Rightarrow> error + cell" where
  "mean col =
     bindE (numeric_values col) (\<lambda>xs.
       Inr (if xs = [] then NA else N (sum_list xs / real (length xs))))"

text \<open>
  \<^verbatim>\<open>left.merge(right, left_on=lk, right_on=rk, how="left")\<close>: every left row, in the left
  order, once for each right row with an equal key, and once with missing values on
  the right when there is none.  A label that occurs on both sides gets the default
  suffixes \<^verbatim>\<open>_x\<close> (left) and \<^verbatim>\<open>_y\<close> (right).
\<close>

definition merge_label :: "string list \<Rightarrow> string \<Rightarrow> string \<Rightarrow> string" where
  "merge_label others suffix l = (if l \<in> set others then l @ suffix else l)"

definition right_matches :: "column \<Rightarrow> cell \<Rightarrow> 'a list \<Rightarrow> 'a list" where
  "right_matches rkeys k v = map fst (filter (\<lambda>xk. key_eq k (snd xk)) (zip v rkeys))"

definition merge_left :: "frame \<Rightarrow> frame \<Rightarrow> string \<Rightarrow> string \<Rightarrow> error + frame" where
  "merge_left left right lk rk =
     bindE (getitem left lk) (\<lambda>lkeys.
     bindE (getitem right rk) (\<lambda>rkeys.
       Inr (map (\<lambda>cv. (merge_label (columns right) ''_x'' (fst cv),
                        concat (map (\<lambda>xk. replicate (max 1 (length (right_matches rkeys (snd xk) rkeys)))
                                              (fst xk))
                                    (zip (snd cv) lkeys)))) left
            @ map (\<lambda>cv. (merge_label (columns left) ''_y'' (fst cv),
                          concat (map (\<lambda>k. case right_matches rkeys k (snd cv) of
                                               [] \<Rightarrow> [NA] | xs \<Rightarrow> xs) lkeys))) right)))"

text \<open>\<^verbatim>\<open>col.fillna(v)\<close>.\<close>

definition fillna :: "column \<Rightarrow> cell \<Rightarrow> column" where
  "fillna col v = map (\<lambda>c. if isna c then v else c) col"

text \<open>
  \<^verbatim>\<open>df.groupby(key).size().rename(name).reset_index()\<close>: one row for each distinct key
  that is not missing, with the number of rows under it; pandas sorts the keys.  The keys
  of the script are place names, so they are sorted as strings.
\<close>

fun cell_text :: "cell \<Rightarrow> string" where
  "cell_text (S s) = s"
| "cell_text _ = []"

definition group_keys :: "column \<Rightarrow> column" where
  "group_keys col = sort_key cell_text (remdups (filter (\<lambda>c. \<not> isna c) col))"

definition groupby_size :: "frame \<Rightarrow> string \<Rightarrow> string \<Rightarrow> error + frame" where
  "groupby_size df key name =
     bindE (getitem df key) (\<lambda>col.
       Inr [(key, group_keys col),
            (name, map (\<lambda>k. I (int (length (filter (\<lambda>c. c = k) col)))) (group_keys col))])"

section \<open>The source normalizer\<close>

text \<open>
  \<^verbatim>\<open>_standardise_carbon_monitor\<close>.  \<^verbatim>\<open>pd.to_datetime(col, errors="coerce")\<close> is a
  parameter: for each value of the column, the timestamp it parsed or \<open>None\<close> (NaT) when
  the value did not parse.
\<close>

definition is_emissions_label :: "string \<Rightarrow> bool" where
  "is_emissions_label c =
     (startswith (lower c) ''emission'' \<or> lower c \<in> {''value'', ''co2''})"

definition coerced :: "timestamp option list \<Rightarrow> column" where
  "coerced ts = map (\<lambda>t. case t of Some d \<Rightarrow> D d | None \<Rightarrow> NA) ts"

text \<open>\<^verbatim>\<open>col.dt.year\<close> of a datetime column.\<close>

definition dt_year :: "column \<Rightarrow> column" where
  "dt_year col = map (\<lambda>c. case c of D d \<Rightarrow> I (ts_year d) | _ \<Rightarrow> NA) col"

definition read_csv :: "frame disk_file \<Rightarrow> error + frame" where
  "read_csv f = (case f of Contents df \<Rightarrow> Inr df | _ \<Rightarrow> Inl ReadError)"

definition standardise_carbon_monitor ::
  "(column \<Rightarrow> timestamp option list) \<Rightarrow> frame disk_file \<Rightarrow> error + frame" where
  "standardise_carbon_monitor to_dt path =
     bindE (read_csv path) (\<lambda>df0.
     let emi_col = find is_emissions_label (columns df0);
         df1 = rename_columns df0 emi_col ''emissions''
     in bindE (getitem df1 ''date'') (\<lambda>dates.
        let df2 = setitem df1 ''date'' (coerced (to_dt dates))
        in bindE (dropna df2 [''date'']) (\<lambda>df3.
           bindE (getitem df3 ''date'') (\<lambda>parsed.
           let df4 = setitem df3 ''year'' (dt_year parsed)
           in select df4 [''city'', ''date'', ''emissions'', ''year'']))))"

section \<open>The run\<close>

datatype location = Interior | Boundary | Exterior

text \<open>
  What a run reads.  The library functions whose answers the script only passes on
  are fields as well: the date parser, the conversion of a text to a float, and the
  position of a point relative to a polygon, from which the join predicate
  \<^verbatim>\<open>within\<close> is taken.
\<close>

record env =
  OPENAQ_KEY :: "string option"
  http_get :: "request \<Rightarrow> http_outcome"
  to_datetime :: "column \<Rightarrow> timestamp option list"
  py_float :: "string \<Rightarrow> real option"
  locate :: "point \<Rightarrow> polygon \<Rightarrow> location"
  carbon_monitor_csv :: "frame disk_file"
  pm25_fallback_csv :: "frame disk_file"
  tri_csv :: "frame disk_file"
  place_zip :: "frame disk_file"

definition YEARS :: "int list" where
  "YEARS = [2024]"

definition CITIES :: "(string \<times> real \<times> real) list" where
  "CITIES =
     [(''New York'', 40.7128, -74.0060),
      (''Los Angeles'', 34.0522, -118.2437),
      (''Chicago'', 41.8781, -87.6298),
      (''Houston'', 29.7604, -95.3698),
      (''Phoenix'', 33.4484, -112.0740),
      (''Philadelphia'', 39.9526, -75.1652),
      (''Tampa'', 27.9506, -82.4572)]"

text \<open>The frame used when the emissions file is absent.\<close>

definition empty_emissions :: frame where
  "empty_emissions = [(''city'', []), (''date'', []), (''emissions'', []), (''year'', [])]"

subsection \<open>The fallback resolver (lines 102 to 105)\<close>

text \<open>\<^verbatim>\<open>df.iloc[0]\<close> of a frame with a row, as the list of its labelled values.\<close>

definition iloc0 :: "frame \<Rightarrow> (string \<times> cell) list" where
  "iloc0 df = map (\<lambda>cv. (fst cv, case snd cv of [] \<Rightarrow> NA | x # _ \<Rightarrow> x)) df"

text \<open>
  \<^verbatim>\<open>row.name\<close> on such a row: AttributeError when the label is missing, the value when
  the label occurs once, the Series of the values under it when it occurs more than once.
\<close>

definition series_attr :: "(string \<times> cell) list \<Rightarrow> string \<Rightarrow> error + cell" where
  "series_attr row name =
     (case filter (\<lambda>lv. fst lv = name) row of
        [] \<Rightarrow> Inl (AttributeError name)
      | [lv] \<Rightarrow> Inr (snd lv)
      | lvs \<Rightarrow> Inr (Sr (map snd lvs)))"

definition resolve_pm25 :: "cell \<Rightarrow> frame option \<Rightarrow> string \<Rightarrow> error + cell" where
  "resolve_pm25 fetched pm_fb name =
     (case pm_fb of
        None \<Rightarrow> Inr fetched
      | Some fb \<Rightarrow>
          if isna fetched then
            bindE (getattr_series fb ''city'') (\<lambda>cs.
              let row = keep_rows fb (map (\<lambda>c. py_eq c (S name)) cs)
              in if \<not> empty_frame row
                 then series_attr (iloc0 row) ''pm25''
                 else Inr fetched)
          else Inr fetched)"

subsection \<open>The emissions mean (lines 106 and 107)\<close>

text \<open>
  \<^verbatim>\<open>co2_rows.emissions.mean()\<close>: the mean of the column, a number or NaN; on a sub-frame
  \<^verbatim>\<open>DataFrame.mean()\<close> gives a Series with the mean of each of its columns, and that
  Series is what the script stores.
\<close>

definition selection_mean :: "selection \<Rightarrow> error + cell" where
  "selection_mean sel =
     (case sel of
        Column c \<Rightarrow> mean c
      | SubFrame f \<Rightarrow> bindE (mapE (\<lambda>cv. mean (snd cv)) f) (\<lambda>ms. Inr (Sr ms)))"

text \<open>The row mask \<^verbatim>\<open>(cm_df.city == city) & (cm_df.year == YEARS[0])\<close> of line 106.\<close>

definition co2_mask :: "column \<Rightarrow> column \<Rightarrow> string \<Rightarrow> bool list" where
  "co2_mask cs ys name =
     map (\<lambda>cy. py_eq (fst cy) (S name) \<and> py_eq (snd cy) (I (hd YEARS))) (zip cs ys)"

definition co2_of :: "frame \<Rightarrow> string \<Rightarrow> error + cell" where
  "co2_of cm_df name =
     bindE (getattr_series cm_df ''city'') (\<lambda>cs.
     bindE (getattr_series cm_df ''year'') (\<lambda>ys.
       let co2_rows = keep_rows cm_df (co2_mask cs ys name)
       in if \<not> empty_frame co2_rows
          then bindE (getattr co2_rows ''emissions'') selection_mean
          else Inr NA))"

subsection \<open>One row per city (lines 99 to 111)\<close>

record city_row =
  city :: string
  latitude :: real
  longitude :: real
  pm25 :: cell
  co2 :: cell

definition city_metrics ::
  "env \<Rightarrow> frame option \<Rightarrow> frame \<Rightarrow> string \<times> real \<times> real \<Rightarrow> error + city_row" where
  "city_metrics env pm_fb cm_df c =
     (case c of (name, lat, lon) \<Rightarrow>
        bindE (resolve_pm25 (get_pm25_latest (http_get env) lat lon (OPENAQ_KEY env)) pm_fb name)
          (\<lambda>pm.
        bindE (co2_of cm_df name) (\<lambda>co.
          Inr \<lparr> city = name, latitude = lat, longitude = lon, pm25 = pm, co2 = co \<rparr>)))"

text \<open>\<^verbatim>\<open>pd.DataFrame(rows)\<close> of a list of dicts with these five keys; no dict, no column.\<close>

definition DataFrame :: "city_row list \<Rightarrow> frame" where
  "DataFrame rows =
     (if rows = [] then []
      else [(''city'', map (\<lambda>r. S (city r)) rows),
            (''latitude'', map (\<lambda>r. N (latitude r)) rows),
            (''longitude'', map (\<lambda>r. N (longitude r)) rows),
            (''pm25'', map pm25 rows),
            (''co2'', map co2 rows)])"

text \<open>Line 93: the emissions table, normalized, or the empty one when the file is absent.\<close>

definition load_emissions :: "env \<Rightarrow> error + frame" where
  "load_emissions env =
     (case carbon_monitor_csv env of
        Absent \<Rightarrow> Inr empty_emissions
      | f \<Rightarrow> standardise_carbon_monitor (to_datetime env) f)"

text \<open>Line 97: the fallback table, or \<^verbatim>\<open>None\<close> when the file is absent.\<close>

definition load_fallback :: "env \<Rightarrow> error + frame option" where
  "load_fallback env =
     (case pm25_fallback_csv env of
        Absent \<Rightarrow> Inr None
      | f \<Rightarrow> bindE (read_csv f) (\<lambda>fb. Inr (Some fb)))"

text \<open>Lines 89 to 111: the metrics table before the facility stage.\<close>

definition assemble :: "env \<Rightarrow> error + frame" where
  "assemble env =
     bindE (load_emissions env) (\<lambda>cm_df.
     bindE (load_fallback env) (\<lambda>pm_fb.
     bindE (mapE (city_metrics env pm_fb cm_df) CITIES) (\<lambda>rows.
     let metrics = DataFrame rows
     in Inr (setitem metrics ''tri_facilities'' (replicate (nrows metrics) (I 0))))))"

subsection \<open>The facility stage (lines 113 to 124)\<close>

text \<open>
  \<^verbatim>\<open>gpd.points_from_xy(xs, ys)\<close> converts both columns to float64, value by value as
  \<^verbatim>\<open>float\<close> does: a number passes, a text passes when \<^verbatim>\<open>float\<close> accepts it
  (\<^verbatim>\<open>"41.5"\<close>, \<^verbatim>\<open>" 4_1 "\<close>, \<^verbatim>\<open>"1e3"\<close>) and raises ValueError otherwise, anything else
  raises TypeError.  What \<^verbatim>\<open>float\<close> makes of a text is the field \<open>py_float\<close> of the
  environment: the value, or \<open>None\<close> when it raises.
\<close>

fun to_float :: "(string \<Rightarrow> real option) \<Rightarrow> cell \<Rightarrow> error + real" where
  "to_float pf (I i) = Inr (real_of_int i)"
| "to_float pf (N x) = Inr x"
| "to_float pf (S s) = (case pf s of Some x \<Rightarrow> Inr x | None \<Rightarrow> Inl ValueError)"
| "to_float pf _ = Inl TypeError"

definition points_from_xy ::
  "(string \<Rightarrow> real option) \<Rightarrow> column \<Rightarrow> column \<Rightarrow> error + column" where
  "points_from_xy pf xs ys =
     bindE (mapE (to_float pf) xs) (\<lambda>fx.
     bindE (mapE (to_float pf) ys) (\<lambda>fy.
       Inr (map (\<lambda>xy. Pt (fst xy) (snd xy)) (zip fx fy))))"

text \<open>The body of the \<^verbatim>\<open>try\<close> block of \<^verbatim>\<open>_read_tri\<close>, and the function.\<close>

definition read_tri_try ::
  "(string \<Rightarrow> real option) \<Rightarrow> frame disk_file \<Rightarrow> error + frame option" where
  "read_tri_try pf path =
     bindE (read_csv path) (\<lambda>df.
       case find (\<lambda>c. startswith (upper c) ''LAT'') (columns df) of
         None \<Rightarrow> Inr None
       | Some lat \<Rightarrow>
          (case find (\<lambda>c. startswith (upper c) ''LON'') (columns df) of
             None \<Rightarrow> Inr None
           | Some lon \<Rightarrow>
               if lat = [] \<or> lon = [] then Inr None
               else bindE (dropna df [lat, lon]) (\<lambda>df'.
                    bindE (getitem df' lon) (\<lambda>xs.
                    bindE (getitem df' lat) (\<lambda>ys.
                    bindE (points_from_xy pf xs ys) (\<lambda>pts.
                      Inr (Some (setitem df' ''geometry'' pts))))))))"

definition read_tri :: "(string \<Rightarrow> real option) \<Rightarrow> frame disk_file \<Rightarrow> frame option" where
  "read_tri pf path = (case read_tri_try pf path of Inl e \<Rightarrow> None | Inr r \<Rightarrow> r)"

text \<open>
  The join predicate \<^verbatim>\<open>predicate="within"\<close> between a point and a polygon: the point is
  in the interior of the polygon.
\<close>

definition within_pred :: "(point \<Rightarrow> polygon \<Rightarrow> location) \<Rightarrow> cell \<Rightarrow> cell \<Rightarrow> bool" where
  "within_pred loc a b =
     (case a of
        Pt x y \<Rightarrow> (case b of Poly g \<Rightarrow> loc (x, y) g = Interior | _ \<Rightarrow> False)
      | _ \<Rightarrow> False)"

text \<open>
  \<^verbatim>\<open>gpd.sjoin(left, right, how="inner", predicate="within")\<close>: one row for each pair of
  a left and a right row whose geometries satisfy the predicate, in the left order.  It
  carries the left columns, \<^verbatim>\<open>index_right\<close> (here the position of the right row, since
  row labels are not modelled) and the right columns but the geometry; a label on both
  sides gets the suffixes \<^verbatim>\<open>_left\<close> and \<^verbatim>\<open>_right\<close>.
\<close>

definition sjoin ::
  "(point \<Rightarrow> polygon \<Rightarrow> location) \<Rightarrow> frame \<Rightarrow> frame \<Rightarrow> error + frame" where
  "sjoin loc left right =
     bindE (getitem left ''geometry'') (\<lambda>lgeo.
     bindE (getitem right ''geometry'') (\<lambda>rgeo.
       let rattrs = filter (\<lambda>cv. fst cv \<noteq> ''geometry'') right
       in Inr (map (\<lambda>cv. (merge_label (columns rattrs) ''_left'' (fst cv),
                           concat (map (\<lambda>xp. replicate (length (filter (within_pred loc (snd xp)) rgeo))
                                                 (fst xp))
                                       (zip (snd cv) lgeo)))) left
               @ [(''index_right'',
                   concat (map (\<lambda>p. map (\<lambda>jg. I (int (fst jg)))
                                       (filter (\<lambda>jg. within_pred loc p (snd jg))
                                          (zip [0..<length rgeo] rgeo))) lgeo))]
               @ map (\<lambda>cv. (merge_label (columns left) ''_right'' (fst cv),
                             concat (map (\<lambda>p. map fst (filter (\<lambda>xg. within_pred loc p (snd xg))
                                                         (zip (snd cv) rgeo))) lgeo))) rattrs)))"

text \<open>Lines 119 to 122: the per-name facility counts.\<close>

definition facility_counts ::
  "(point \<Rightarrow> polygon \<Rightarrow> location) \<Rightarrow> frame \<Rightarrow> frame \<Rightarrow> column \<Rightarrow> error + frame" where
  "facility_counts loc tri_gdf place_gdf cities =
     bindE (getattr_series place_gdf ''NAME'') (\<lambda>names.
     let sub = keep_rows place_gdf (isin names cities)
     in bindE (select sub [''NAME'', ''geometry'']) (\<lambda>right.
        bindE (sjoin loc tri_gdf right) (\<lambda>tri_in.
        groupby_size tri_in ''NAME'' ''tri_facilities'')))"

definition tri_stage :: "env \<Rightarrow> frame \<Rightarrow> error + frame" where
  "tri_stage env metrics =
     (if tri_csv env \<noteq> Absent \<and> place_zip env \<noteq> Absent then
        (case read_tri (py_float env) (tri_csv env) of
           None \<Rightarrow> Inr metrics
         | Some tri_gdf \<Rightarrow>
             bindE (read_csv (place_zip env)) (\<lambda>place_gdf.
             bindE (getattr_series metrics ''city'') (\<lambda>cities.
             bindE (facility_counts (locate env) tri_gdf place_gdf cities) (\<lambda>counts.
             bindE (merge_left metrics counts ''city'' ''NAME'') (\<lambda>merged.
             bindE (drop_column merged ''NAME'') (\<lambda>metrics'.
             bindE (getitem metrics' ''tri_facilities'') (\<lambda>col.
               Inr (setitem metrics' ''tri_facilities'' (fillna col (I 0))))))))))
      else Inr metrics)"

text \<open>\<^verbatim>\<open>main\<close> up to the table that is exported.\<close>

definition main :: "env \<Rightarrow> error + frame" where
  "main env = bindE (assemble env) (tri_stage env)"

section \<open>Sample inputs\<close>

text \<open>Concrete inputs on which the theorems below are instantiated.\<close>

definition sample_body :: json where
  "sample_body =
     JObj [(''meta'', JNull),
           (''results'',
            JArr [JObj [(''location'', JStr ''A''),
                        (''measurements'',
                         JArr [JObj [(''parameter'', JStr ''pm25''), (''value'', JNum 10)]])],
                  JObj [(''measurements'', JArr [JObj [(''value'', JNum 20)]])]])]"

definition sample_cm :: frame where
  "sample_cm =
     [(''city'', [S ''New York'', S ''New York'', S ''New York'', S ''Chicago'']),
      (''date'', [S ''2024-01-05'', S ''2024-02-05'', S ''not a date'', S ''2023-03-01'']),
      (''Value'', [N 10, N 20, N 99, N 7])]"

definition sample_dup :: frame where
  "sample_dup =
     [(''city'', [S ''New York'', S ''New York'', S ''Chicago'']),
      (''date'', [S ''2024-01-05'', S ''2024-02-05'', S ''2023-03-01'']),
      (''value'', [N 10, N 20, N 7]),
      (''emissions'', [N 1, N 2, N 3])]"

definition sample_to_datetime :: "column \<Rightarrow> timestamp option list" where
  "sample_to_datetime col =
     map (\<lambda>c. if c = S ''2024-01-05'' then Some (Timestamp 2024 1 5)
               else if c = S ''2024-02-05'' then Some (Timestamp 2024 2 5)
               else if c = S ''2023-03-01'' then Some (Timestamp 2023 3 1)
               else None) col"

definition box_locate :: "point \<Rightarrow> polygon \<Rightarrow> location" where
  "box_locate p g =
     (let xs = map fst g; ys = map snd g;
          x0 = Min (set xs); x1 = Max (set xs); y0 = Min (set ys); y1 = Max (set ys)
      in if x0 < fst p \<and> fst p < x1 \<and> y0 < snd p \<and> snd p < y1 then Interior
         else if x0 \<le> fst p \<and> fst p \<le> x1 \<and> y0 \<le> snd p \<and> snd p \<le> y1 then Boundary
         else Exterior)"

definition sample_py_float :: "string \<Rightarrow> real option" where
  "sample_py_float s = (if s = ''4_1'' then Some 41 else if s = ''41.5'' then Some 41.5 else None)"

definition offline_env :: env where
  "offline_env =
     \<lparr> OPENAQ_KEY = None, http_get = (\<lambda>q. RequestFailed), to_datetime = sample_to_datetime,
       py_float = sample_py_float, locate = box_locate, carbon_monitor_csv = Absent,
       pm25_fallback_csv = Absent, tri_csv = Absent, place_zip = Absent \<rparr>"

definition fallback_without_pm25 :: frame where
  "fallback_without_pm25 = [(''city'', [S ''Boston''])]"

definition sample_no_emissions :: frame where
  "sample_no_emissions =
     [(''city'', [S ''New York'']), (''date'', [S ''2024-01-05'']), (''tonnes'', [N 10])]"

definition fallback_without_city :: frame where
  "fallback_without_city = [(''town'', [S ''Chicago'']), (''pm25'', [N 12.3])]"

definition sample_http :: "request \<Rightarrow> http_outcome" where
  "sample_http q =
     (if 40 < fst (coordinates q) \<and> fst (coordinates q) < 41
      then Response False (Some sample_body) else RequestFailed)"

definition sample_fallback_ny :: frame where
  "sample_fallback_ny =
     [(''city'', [S ''New York'', S ''Boston'', S ''Chicago'']),
      (''pm25'', [N 99, N 8, N 12.3])]"

definition sample_run_env :: env where
  "sample_run_env =
     offline_env\<lparr>http_get := sample_http, carbon_monitor_csv := Contents sample_cm,
                  pm25_fallback_csv := Contents sample_fallback_ny\<rparr>"

definition sample_run_metrics :: frame where
  "sample_run_metrics =
     [(''city'', [S ''New York'', S ''Los Angeles'', S ''Chicago'', S ''Houston'', S ''Phoenix'',
                  S ''Philadelphia'', S ''Tampa'']),
      (''latitude'', [N 40.7128, N 34.0522, N 41.8781, N 29.7604, N 33.4484, N 39.9526, N 27.9506]),
      (''longitude'', [N (-74.0060), N (-118.2437), N (-87.6298), N (-95.3698), N (-112.0740),
                       N (-75.1652), N (-82.4572)]),
      (''pm25'', [N 15, NA, N 12.3, NA, NA, NA, NA]),
      (''co2'', [N 15, NA, NA, NA, NA, NA, NA]),
      (''tri_facilities'', [I 0, I 0, I 0, I 0, I 0, I 0, I 0])]"

definition dup_env :: env where
  "dup_env = offline_env\<lparr>carbon_monitor_csv := Contents sample_dup\<rparr>"

definition dup_metrics :: frame where
  "dup_metrics =
     [(''city'', [S ''New York'', S ''Los Angeles'', S ''Chicago'', S ''Houston'', S ''Phoenix'',
                  S ''Philadelphia'', S ''Tampa'']),
      (''latitude'', [N 40.7128, N 34.0522, N 41.8781, N 29.7604, N 33.4484, N 39.9526, N 27.9506]),
      (''longitude'', [N (-74.0060), N (-118.2437), N (-87.6298), N (-95.3698), N (-112.0740),
                       N (-75.1652), N (-82.4572)]),
      (''pm25'', [NA, NA, NA, NA, NA, NA, NA]),
      (''co2'', [Sr [N 15, N 1.5], NA, NA, NA, NA, NA, NA]),
      (''tri_facilities'', [I 0, I 0, I 0, I 0, I 0, I 0, I 0])]"

definition offline_metrics :: frame where
  "offline_metrics =
     [(''city'', [S ''New York'', S ''Los Angeles'', S ''Chicago'', S ''Houston'', S ''Phoenix'',
                  S ''Philadelphia'', S ''Tampa'']),
      (''latitude'', [N 40.7128, N 34.0522, N 41.8781, N 29.7604, N 33.4484, N 39.9526, N 27.9506]),
      (''longitude'', [N (-74.0060), N (-118.2437), N (-87.6298), N (-95.3698), N (-112.0740),
                       N (-75.1652), N (-82.4572)]),
      (''pm25'', [NA, NA, NA, NA, NA, NA, NA]),
      (''co2'', [NA, NA, NA, NA, NA, NA, NA]),
      (''tri_facilities'', [I 0, I 0, I 0, I 0, I 0, I 0, I 0])]"

definition sample_tri :: frame where
  "sample_tri =
     [(''FACILITY_NAME'', [S ''Plant A'', S ''Plant B'', S ''Plant C'', S ''Plant D'']),
      (''LATITUDE'', [N 41.5, N 41, N 50, NA]),
      (''LONGITUDE'', [N (-87.5), N (-87.5), N 0, N 3])]"

definition sample_places :: frame where
  "sample_places =
     [(''NAME'', [S ''Chicago'', S ''Boston'']),
      (''geometry'', [Poly [(-88, 41), (-87, 41), (-87, 42), (-88, 42)],
                      Poly [(-72, 42), (-70, 42), (-70, 43), (-72, 43)]])]"

definition join_env :: env where
  "join_env = offline_env\<lparr>tri_csv := Contents sample_tri, place_zip := Contents sample_places\<rparr>"

definition unreadable_place_env :: env where
  "unreadable_place_env = offline_env\<lparr>tri_csv := Contents sample_tri, place_zip := Unreadable\<rparr>"

definition sample_tri_text :: frame where
  "sample_tri_text =
     [(''FACILITY_NAME'', [S ''Plant A'']),
      (''LATITUDE'', [S ''41.5'']),
      (''LONGITUDE'', [S ''4_1''])]"

definition text_join_env :: env where
  "text_join_env =
     offline_env\<lparr>tri_csv := Contents sample_tri_text, place_zip := Contents sample_places\<rparr>"


section \<open>Basic facts\<close>

lemma bindE_Inr [simp]: "bindE (Inr x) f = f x"
  by (simp add: bindE_def)

lemma bindE_Inl [simp]: "bindE (Inl e) f = Inl e"
  by (simp add: bindE_def)

lemma bindE_eq_Inr: "bindE m f = Inr y \<longleftrightarrow> (\<exists>x. m = Inr x \<and> f x = Inr y)"
  by (cases m) simp_all

section \<open>Facts about frames\<close>

lemma columns_keep_rows: "columns (keep_rows df k) = columns df"
  by (simp add: columns_def keep_rows_def comp_def)

lemma map_of_keep_rows: "map_of (keep_rows df k) l = map_option (take_mask k) (map_of df l)"
  by (induction df) (auto simp: keep_rows_def)

lemma columns_setitem:
  "columns (setitem df l c) = (if l \<in> set (columns df) then columns df else columns df @ [l])"
  by (induction df) (auto simp: setitem_def columns_def)

lemma map_of_replace:
  "map_of (map (\<lambda>cv. if fst cv = l then (l, c) else cv) df) l' =
     (if l' = l then (if l \<in> fst ` set df then Some c else None) else map_of df l')"
  by (induction df) (force simp: image_iff)+

lemma map_of_setitem: "map_of (setitem df l c) l' = (if l' = l then Some c else map_of df l')"
proof (cases "l \<in> set (columns df)")
  case True
  then show ?thesis
    by (simp add: setitem_def columns_def map_of_replace)
next
  case False
  then have "map_of df l = None"
    by (simp add: columns_def map_of_eq_None_iff)
  with False show ?thesis
    by (auto simp: setitem_def map_add_def split: option.splits)
qed

lemma columns_rename:
  "columns (rename_columns df k new) = map (\<lambda>c. if Some c = k then new else c) (columns df)"
  by (induction df) (auto simp: rename_columns_def columns_def)

lemma rename_None: "rename_columns df None new = df"
  by (induction df) (auto simp: rename_columns_def)

lemma map_of_rename:
  assumes "distinct (columns df)" and "e = new \<or> new \<notin> set (columns df)"
  shows "map_of (rename_columns df (Some e) new) l =
           (if l = new then map_of df e else if l = e then None else map_of df l)"
  using assms
proof (induction df)
  case Nil
  then show ?case by (simp add: rename_columns_def)
next
  case (Cons cv df)
  then have IH: "map_of (rename_columns df (Some e) new) l =
           (if l = new then map_of df e else if l = e then None else map_of df l)"
    by (auto simp: columns_def)
  show ?case
  proof (cases "fst cv = e")
    case True
    with Cons.prems have "e \<notin> set (columns df)" by (simp add: columns_def)
    then have "map_of df e = None" by (simp add: columns_def map_of_eq_None_iff)
    with True IH show ?thesis by (cases cv) (auto simp: rename_columns_def)
  next
    case False
    with Cons.prems have "fst cv \<noteq> new" by (auto simp: columns_def)
    with False IH show ?thesis by (cases cv) (auto simp: rename_columns_def)
  qed
qed

lemma distinct_rename:
  assumes "distinct (columns df)" and "e = new \<or> new \<notin> set (columns df)"
  shows "distinct (columns (rename_columns df (Some e) new))"
proof (cases "e = new")
  case True
  then have "map (\<lambda>c. if Some c = Some e then new else c) (columns df) = columns df"
    by (simp add: map_idI)
  with assms(1) show ?thesis by (simp add: columns_rename)
next
  case False
  with assms(2) have "new \<notin> set (columns df)" by simp
  then have "inj_on (\<lambda>c. if Some c = Some e then new else c) (set (columns df))"
    by (simp add: inj_on_def) metis
  with assms(1) show ?thesis by (simp add: columns_rename distinct_map)
qed

lemma filter_label:
  "distinct (columns df) \<Longrightarrow> map_of df l = Some v \<Longrightarrow> filter (\<lambda>cv. fst cv = l) df = [(l, v)]"
proof (induction df)
  case Nil
  then show ?case by simp
next
  case (Cons cv df)
  show ?case
  proof (cases "fst cv = l")
    case True
    with Cons.prems have "l \<notin> fst ` set df" by (auto simp: columns_def)
    then have "filter (\<lambda>cv. fst cv = l) df = []" by (auto simp: filter_empty_conv)
    with True Cons.prems show ?thesis by (cases cv) auto
  next
    case False
    with Cons show ?thesis by (auto simp: columns_def)
  qed
qed

lemma select4:
  assumes "distinct (columns df)"
    and "map_of df a = Some va" "map_of df b = Some vb" "map_of df c = Some vc" "map_of df d = Some vd"
  shows "select df [a, b, c, d] = Inr [(a, va), (b, vb), (c, vc), (d, vd)]"
  using assms by (simp add: select_def pick_def filter_label)

lemma pick_missing: "l \<notin> set (columns df) \<Longrightarrow> pick df l = Inl (KeyError l)"
proof -
  assume "l \<notin> set (columns df)"
  then have "filter (\<lambda>cv. fst cv = l) df = []"
    by (auto simp: filter_empty_conv columns_def)
  then show ?thesis by (simp add: pick_def)
qed

lemma pick_present: "l \<in> set (columns df) \<Longrightarrow> \<exists>cs. pick df l = Inr cs"
proof -
  assume "l \<in> set (columns df)"
  then have "filter (\<lambda>cv. fst cv = l) df \<noteq> []"
    by (auto simp: filter_empty_conv columns_def)
  then show ?thesis by (cases "filter (\<lambda>cv. fst cv = l) df") (simp_all add: pick_def)
qed

lemma mapE_fails: "x \<in> set xs \<Longrightarrow> f x = Inl e \<Longrightarrow> \<exists>e'. mapE f xs = Inl e'"
proof (induction xs)
  case Nil
  then show ?case by simp
next
  case (Cons y ys)
  show ?case
  proof (cases "f y")
    case (Inl a)
    then show ?thesis by simp
  next
    case (Inr b)
    with Cons have "x \<in> set ys" by auto
    with Cons obtain e' where "mapE f ys = Inl e'" by auto
    with Inr show ?thesis by simp
  qed
qed

lemma select_missing:
  "l \<in> set ls \<Longrightarrow> l \<notin> set (columns df) \<Longrightarrow> \<exists>e. select df ls = Inl e"
proof -
  assume "l \<in> set ls" and "l \<notin> set (columns df)"
  then obtain e where "mapE (pick df) ls = Inl e"
    using mapE_fails [of l ls "pick df"] pick_missing [of l df] by auto
  then show ?thesis by (simp add: select_def)
qed

lemma bindE_InrE:
  assumes "bindE m f = Inr y"
  obtains x where "m = Inr x" and "f x = Inr y"
  using assms by (cases m) simp_all

lemma pick_Inr: "pick df l = Inr cs \<Longrightarrow> fst ` set cs = {l}"
proof -
  assume a: "pick df l = Inr cs"
  show ?thesis
  proof (cases "filter (\<lambda>cv. fst cv = l) df")
    case Nil
    with a show ?thesis by (simp add: pick_def)
  next
    case (Cons c rest)
    with a have eq: "cs = c # rest" by (simp add: pick_def)
    from Cons eq have "set cs = set (filter (\<lambda>cv. fst cv = l) df)" by simp
    then have "\<forall>cv\<in>set cs. fst cv = l" by simp
    with eq show ?thesis by auto
  qed
qed

lemma mapE_pick_labels: "mapE (pick df) ls = Inr css \<Longrightarrow> set (map fst (concat css)) = set ls"
proof (induction ls arbitrary: css)
  case Nil
  then show ?case by simp
next
  case (Cons l ls)
  from Cons.prems obtain cs where f: "pick df l = Inr cs"
    and b: "bindE (mapE (pick df) ls) (\<lambda>ys. Inr (cs # ys)) = Inr css"
    by (auto elim: bindE_InrE)
  from b obtain rest where r: "mapE (pick df) ls = Inr rest" and css: "css = cs # rest"
    by (auto elim: bindE_InrE)
  from pick_Inr [OF f] Cons.IH [OF r] css show ?case by simp
qed

lemma select_columns:
  assumes "select df ls = Inr out"
  shows "set (columns out) = set ls"
proof -
  from assms obtain css where "mapE (pick df) ls = Inr css" and "out = concat css"
    unfolding select_def by (auto elim: bindE_InrE)
  then show ?thesis using mapE_pick_labels [of df ls css] by (simp add: columns_def)
qed

lemma standardise_columns:
  assumes "standardise_carbon_monitor to_dt f = Inr out"
  shows "set (columns out) = {''city'', ''date'', ''emissions'', ''year''}"
proof -
  from assms obtain df4 where "select df4 [''city'', ''date'', ''emissions'', ''year''] = Inr out"
    unfolding standardise_carbon_monitor_def Let_def
    by (elim bindE_InrE) (rule that, assumption)
  from select_columns [OF this] show ?thesis by simp
qed

lemma take_mask_coerced:
  "take_mask (map (\<lambda>t. t \<noteq> None) ts) (coerced ts) = map D (List.map_filter id ts)"
  unfolding take_mask_def coerced_def
  by (induction ts) (auto split: option.splits)

lemma dt_year_D: "dt_year (map D ts) = map (\<lambda>t. I (ts_year t)) ts"
  by (simp add: dt_year_def)

lemma notna_mask_single:
  "length c = n \<Longrightarrow> notna_mask n [c] = map (\<lambda>x. \<not> isna x) c"
proof -
  assume "length c = n"
  then have "zip c (replicate n True) = map (\<lambda>x. (x, True)) c"
    by (induction c arbitrary: n) auto
  then show ?thesis by (simp add: notna_mask_def comp_def)
qed

lemma notna_coerced: "map (\<lambda>x. \<not> isna x) (coerced ts) = map (\<lambda>t. t \<noteq> None) ts"
  by (auto simp: coerced_def isna_def split: option.splits)

lemma not_emissions_city_date:
  "\<not> is_emissions_label ''city''" "\<not> is_emissions_label ''date''" "is_emissions_label ''emissions''"
  by (simp_all add: is_emissions_label_def lower_def lower_char_def startswith_def)

lemma find_SomeD: "find P xs = Some x \<Longrightarrow> P x \<and> x \<in> set xs"
  by (induction xs) (auto split: if_splits)


section \<open>The fetcher never raises\<close>

lemma py_sum_numbers: "py_sum (map JNum xs) = Inr (sum_list xs)"
  by (induction xs) simp_all

lemma measurement_values_sample: "measurement_values sample_body = Inr (map JNum [10, 20])"
  by (simp add: sample_body_def measurement_values_def dict_get_def py_iter_def subscript_def)



section \<open>The source normalizer\<close>

lemma standardise_result:
  assumes dl: "distinct (columns df0)"
    and len: "\<forall>cv\<in>set df0. length (snd cv) = n"
    and c: "map_of df0 ''city'' = Some cs"
    and d: "map_of df0 ''date'' = Some ds"
    and f: "find is_emissions_label (columns df0) = Some e"
    and em: "map_of df0 e = Some es"
    and uniq: "e = ''emissions'' \<or> ''emissions'' \<notin> set (columns df0)"
    and tl: "length (to_dt ds) = n"
  shows "standardise_carbon_monitor to_dt (Contents df0) =
           Inr [(''city'', take_mask (map (\<lambda>t. t \<noteq> None) (to_dt ds)) cs),
                (''date'', map D (List.map_filter id (to_dt ds))),
                (''emissions'', take_mask (map (\<lambda>t. t \<noteq> None) (to_dt ds)) es),
                (''year'', map (\<lambda>t. I (ts_year t)) (List.map_filter id (to_dt ds)))]"
proof -
  let ?keep = "map (\<lambda>t. t \<noteq> None) (to_dt ds)"
  let ?df1 = "rename_columns df0 (Some e) ''emissions''"
  let ?df2 = "setitem ?df1 ''date'' (coerced (to_dt ds))"
  let ?df3 = "keep_rows ?df2 ?keep"
  let ?parsed = "map D (List.map_filter id (to_dt ds))"
  let ?df4 = "setitem ?df3 ''year'' (dt_year ?parsed)"
  from f have e: "is_emissions_label e" by (auto dest: find_SomeD)
  with not_emissions_city_date have ne: "e \<noteq> ''city''" "e \<noteq> ''date''" by auto
  have m1: "map_of ?df1 l = (if l = ''emissions'' then Some es else if l = e then None else map_of df0 l)" for l
    using map_of_rename [OF dl uniq] em by simp
  have d1: "distinct (columns ?df1)" by (rule distinct_rename [OF dl uniq])
  have date1: "getitem ?df1 ''date'' = Inr ds" using m1 d ne by (simp add: getitem_def)
  from d have "(''date'', ds) \<in> set df0" by (rule map_of_SomeD)
  then have "''date'' \<in> set (columns df0)" by (force simp: columns_def)
  then have in1: "''date'' \<in> set (columns ?df1)" using ne by (auto simp: columns_rename)
  then have c2: "columns ?df2 = columns ?df1" by (simp add: columns_setitem)
  have "?df2 \<noteq> []" using in1 c2 by (auto simp: columns_def)
  moreover have "\<forall>cv\<in>set ?df2. length (snd cv) = n"
    using len tl in1 by (auto simp: setitem_def rename_columns_def coerced_def)
  ultimately have n2: "nrows ?df2 = n" by (cases ?df2) (auto simp: nrows_def)
  have g2: "getitem ?df2 ''date'' = Inr (coerced (to_dt ds))" by (simp add: getitem_def map_of_setitem)
  have "length (coerced (to_dt ds)) = n" using tl by (simp add: coerced_def)
  then have keep: "notna_mask n [coerced (to_dt ds)] = ?keep"
    by (simp add: notna_mask_single notna_coerced)
  have drop: "dropna ?df2 [''date''] = Inr ?df3"
    using g2 n2 keep by (simp add: dropna_def)
  have g3: "getitem ?df3 ''date'' = Inr ?parsed"
    by (simp add: getitem_def map_of_keep_rows map_of_setitem take_mask_coerced del: not_None_eq)
  have d4: "distinct (columns ?df4)"
    using d1 c2 by (auto simp: columns_setitem columns_keep_rows)
  have m4: "map_of ?df4 ''city'' = Some (take_mask ?keep cs)"
    "map_of ?df4 ''date'' = Some ?parsed"
    "map_of ?df4 ''emissions'' = Some (take_mask ?keep es)"
    "map_of ?df4 ''year'' = Some (dt_year ?parsed)"
    using m1 c ne by (simp_all add: map_of_setitem map_of_keep_rows take_mask_coerced del: not_None_eq)
  have "select ?df4 [''city'', ''date'', ''emissions'', ''year''] =
      Inr [(''city'', take_mask ?keep cs), (''date'', ?parsed),
           (''emissions'', take_mask ?keep es), (''year'', dt_year ?parsed)]"
    by (rule select4 [OF d4 m4])
  then show ?thesis
    using f date1 drop g3
    by (simp add: standardise_carbon_monitor_def read_csv_def Let_def dt_year_D)
qed

lemma map_of_rename_other:
  "l \<noteq> new \<Longrightarrow> l \<noteq> e \<Longrightarrow> map_of (rename_columns df (Some e) new) l = map_of df l"
  by (induction df) (auto simp: rename_columns_def)

lemma filter_rename:
  "filter (\<lambda>cv. fst cv = l) (rename_columns df (Some e) new) =
     (if l = new then map (\<lambda>cv. (new, snd cv)) (filter (\<lambda>cv. fst cv = e \<or> fst cv = new) df)
      else if l = e then [] else filter (\<lambda>cv. fst cv = l) df)"
  by (induction df) (auto simp: rename_columns_def)

lemma filter_keep_rows:
  "filter (\<lambda>cv. fst cv = l) (keep_rows df k) = keep_rows (filter (\<lambda>cv. fst cv = l) df) k"
  by (induction df) (auto simp: keep_rows_def)

lemma filter_replace_other:
  "l \<noteq> n \<Longrightarrow> filter (\<lambda>cv. fst cv = l) (map (\<lambda>cv. if fst cv = n then (n, c) else cv) df) =
     filter (\<lambda>cv. fst cv = l) df"
  by (induction df) auto

lemma filter_setitem_other:
  "l \<noteq> n \<Longrightarrow> filter (\<lambda>cv. fst cv = l) (setitem df n c) = filter (\<lambda>cv. fst cv = l) df"
  by (simp add: setitem_def filter_replace_other)

lemma filter_replace_same:
  "filter (\<lambda>cv. fst cv = n) (map (\<lambda>cv. if fst cv = n then (n, c) else cv) df) =
     map (\<lambda>cv. (n, c)) (filter (\<lambda>cv. fst cv = n) df)"
  by (induction df) auto

lemma filter_absent: "l \<notin> set (columns df) \<Longrightarrow> filter (\<lambda>cv. fst cv = l) df = []"
  by (auto simp: filter_empty_conv columns_def)

lemma filter_setitem_same:
  "filter (\<lambda>cv. fst cv = n) (setitem df n c) =
     (if n \<in> set (columns df) then map (\<lambda>cv. (n, c)) (filter (\<lambda>cv. fst cv = n) df)
      else [(n, c)])"
  by (simp add: setitem_def filter_replace_same filter_absent)

lemma filter_at_most_one:
  "distinct (columns df) \<Longrightarrow> length (filter (\<lambda>cv. fst cv = l) df) \<le> 1"
proof (cases "map_of df l")
  case None
  assume "distinct (columns df)"
  from None have "l \<notin> set (columns df)" by (simp add: columns_def map_of_eq_None_iff)
  then show ?thesis by (simp add: filter_absent)
next
  case (Some v)
  assume "distinct (columns df)"
  from filter_label [OF this Some] show ?thesis by simp
qed

lemma pick_filter:
  "filter (\<lambda>cv. fst cv = l) df \<noteq> [] \<Longrightarrow> pick df l = Inr (filter (\<lambda>cv. fst cv = l) df)"
  by (cases "filter (\<lambda>cv. fst cv = l) df") (simp_all add: pick_def)

lemma two_labels:
  assumes "distinct (columns df)" and "find P (columns df) = Some e" and "P b" and "b \<noteq> e"
    and "map_of df e = Some x" and "map_of df b = Some y"
  shows "filter (\<lambda>cv. fst cv = e \<or> fst cv = b) df = [(e, x), (b, y)]"
  using assms
proof (induction df)
  case Nil
  then show ?case by simp
next
  case (Cons a df)
  obtain la va where a: "a = (la, va)" by (cases a) auto
  show ?case
  proof (cases "la = e")
    case True
    with Cons.prems a have x: "va = x" and ne: "e \<notin> set (columns df)" and dd: "distinct (columns df)"
      and b: "map_of df b = Some y"
      by (auto simp: columns_def)
    from ne have "filter (\<lambda>cv. fst cv = e \<or> fst cv = b) df = filter (\<lambda>cv. fst cv = b) df"
      by (auto simp: columns_def intro!: filter_cong)
    also from filter_label [OF dd b] have "\<dots> = [(b, y)]" .
    finally show ?thesis using True a x by simp
  next
    case False
    with Cons.prems a have np: "\<not> P la" by (auto simp: columns_def split: if_splits)
    with Cons.prems have nb: "la \<noteq> b" by auto
    from Cons.prems a False np have "find P (columns df) = Some e"
      by (simp add: columns_def)
    moreover from Cons.prems a have "distinct (columns df)" by (simp add: columns_def)
    moreover from Cons.prems a False nb have "map_of df e = Some x" "map_of df b = Some y"
      by auto
    ultimately have "filter (\<lambda>cv. fst cv = e \<or> fst cv = b) df = [(e, x), (b, y)]"
      using Cons.IH Cons.prems(3,4) by blast
    with a False nb show ?thesis by simp
  qed
qed


lemma keep_rows_Nil: "keep_rows [] k = []"
  by (simp add: keep_rows_def)

lemma keep_rows_Cons: "keep_rows ((l, c) # df) k = (l, take_mask k c) # keep_rows df k"
  by (simp add: keep_rows_def)

lemmas filter_frame =
  filter_setitem_other filter_keep_rows filter_rename keep_rows_Nil keep_rows_Cons

lemma not_emissions_year: "\<not> is_emissions_label ''year''"
  by (simp add: is_emissions_label_def lower_def lower_char_def startswith_def)

lemma select4_filter:
  assumes "filter (\<lambda>cv. fst cv = a) df = fa" "fa \<noteq> []"
    and "filter (\<lambda>cv. fst cv = b) df = fb" "fb \<noteq> []"
    and "filter (\<lambda>cv. fst cv = c) df = fc" "fc \<noteq> []"
    and "filter (\<lambda>cv. fst cv = d) df = fd" "fd \<noteq> []"
  shows "select df [a, b, c, d] = Inr (fa @ fb @ fc @ fd)"
  using assms by (simp add: select_def pick_filter)

lemma filter_year_setitem:
  assumes "distinct (columns df)"
  shows "filter (\<lambda>cv. fst cv = l) (setitem df l c) = [(l, c)]"
proof (cases "map_of df l")
  case None
  then have "l \<notin> set (columns df)" by (simp add: columns_def map_of_eq_None_iff)
  then show ?thesis by (simp add: filter_setitem_same)
next
  case (Some v)
  then have "(l, v) \<in> set df" by (rule map_of_SomeD)
  then have "l \<in> set (columns df)" by (force simp: columns_def)
  with filter_label [OF assms Some] show ?thesis by (simp add: filter_setitem_same)
qed

lemma standardise_collision:
  assumes dl: "distinct (columns df0)"
    and len: "\<forall>cv\<in>set df0. length (snd cv) = n"
    and c: "map_of df0 ''city'' = Some cs"
    and d: "map_of df0 ''date'' = Some ds"
    and f: "find is_emissions_label (columns df0) = Some e"
    and em: "map_of df0 e = Some es"
    and other: "e \<noteq> ''emissions''"
    and em2: "map_of df0 ''emissions'' = Some es2"
    and tl: "length (to_dt ds) = n"
  shows "standardise_carbon_monitor to_dt (Contents df0) =
           Inr [(''city'', take_mask (map (\<lambda>t. t \<noteq> None) (to_dt ds)) cs),
                (''date'', map D (List.map_filter id (to_dt ds))),
                (''emissions'', take_mask (map (\<lambda>t. t \<noteq> None) (to_dt ds)) es),
                (''emissions'', take_mask (map (\<lambda>t. t \<noteq> None) (to_dt ds)) es2),
                (''year'', map (\<lambda>t. I (ts_year t)) (List.map_filter id (to_dt ds)))]"
proof -
  let ?keep = "map (\<lambda>t. t \<noteq> None) (to_dt ds)"
  let ?df1 = "rename_columns df0 (Some e) ''emissions''"
  let ?df2 = "setitem ?df1 ''date'' (coerced (to_dt ds))"
  let ?df3 = "keep_rows ?df2 ?keep"
  let ?parsed = "map D (List.map_filter id (to_dt ds))"
  let ?df4 = "setitem ?df3 ''year'' (dt_year ?parsed)"
  from f have e: "is_emissions_label e" by (auto dest: find_SomeD)
  with not_emissions_city_date not_emissions_year
  have ne: "e \<noteq> ''city''" "e \<noteq> ''date''" "e \<noteq> ''year''" by auto
  have date1: "getitem ?df1 ''date'' = Inr ds"
    using d ne by (simp add: getitem_def map_of_rename_other)
  from d have "(''date'', ds) \<in> set df0" by (rule map_of_SomeD)
  then have "''date'' \<in> set (columns df0)" by (force simp: columns_def)
  then have in1: "''date'' \<in> set (columns ?df1)" using ne by (auto simp: columns_rename)
  then have c2: "columns ?df2 = columns ?df1" by (simp add: columns_setitem)
  have "?df2 \<noteq> []" using in1 c2 by (auto simp: columns_def)
  moreover have "\<forall>cv\<in>set ?df2. length (snd cv) = n"
    using len tl in1 by (auto simp: setitem_def rename_columns_def coerced_def)
  ultimately have n2: "nrows ?df2 = n" by (cases ?df2) (auto simp: nrows_def)
  have g2: "getitem ?df2 ''date'' = Inr (coerced (to_dt ds))" by (simp add: getitem_def map_of_setitem)
  have "length (coerced (to_dt ds)) = n" using tl by (simp add: coerced_def)
  then have keep: "notna_mask n [coerced (to_dt ds)] = ?keep"
    by (simp add: notna_mask_single notna_coerced)
  have drop: "dropna ?df2 [''date''] = Inr ?df3"
    using g2 n2 keep by (simp add: dropna_def)
  have g3: "getitem ?df3 ''date'' = Inr ?parsed"
    by (simp add: getitem_def map_of_keep_rows map_of_setitem take_mask_coerced del: not_None_eq)
  have fc: "filter (\<lambda>cv. fst cv = ''city'') ?df4 = [(''city'', take_mask ?keep cs)]"
    using ne filter_label [OF dl c]
    by (simp add: filter_frame del: not_None_eq)
  have "filter (\<lambda>cv. fst cv = ''date'') ?df1 = [(''date'', ds)]"
    using ne filter_label [OF dl d] by (simp add: filter_rename)
  then have fd: "filter (\<lambda>cv. fst cv = ''date'') ?df4 = [(''date'', ?parsed)]"
    using in1
    by (simp add: filter_frame filter_setitem_same take_mask_coerced del: not_None_eq)
  have "filter (\<lambda>cv. fst cv = e \<or> fst cv = ''emissions'') df0 = [(e, es), (''emissions'', es2)]"
    using dl f not_emissions_city_date(3) _ em em2
    by (rule two_labels) (use other in simp)
  then have fe: "filter (\<lambda>cv. fst cv = ''emissions'') ?df4 =
      [(''emissions'', take_mask ?keep es), (''emissions'', take_mask ?keep es2)]"
    by (simp add: filter_frame del: not_None_eq)
  have fy: "filter (\<lambda>cv. fst cv = ''year'') ?df4 = [(''year'', dt_year ?parsed)]"
  proof (cases "map_of ?df3 ''year''")
    case None
    then have "''year'' \<notin> set (columns ?df3)" by (simp add: columns_def map_of_eq_None_iff)
    then show ?thesis by (simp add: filter_setitem_same)
  next
    case (Some v)
    then have "(''year'', v) \<in> set ?df3" by (rule map_of_SomeD)
    then have iny: "''year'' \<in> set (columns ?df3)" by (force simp: columns_def)
    then have "''year'' \<in> set (columns df0)"
      using ne c2 by (auto simp: columns_keep_rows columns_rename split: if_splits)
    then obtain ys where ys: "map_of df0 ''year'' = Some ys"
      by (auto simp: columns_def dest!: weak_map_of_SomeI)
    have "filter (\<lambda>cv. fst cv = ''year'') ?df3 = [(''year'', take_mask ?keep ys)]"
      using ne filter_label [OF dl ys]
      by (simp add: filter_frame del: not_None_eq)
    with iny show ?thesis by (simp add: filter_setitem_same)
  qed
  have "select ?df4 [''city'', ''date'', ''emissions'', ''year''] =
      Inr ([(''city'', take_mask ?keep cs)] @ [(''date'', ?parsed)] @
           [(''emissions'', take_mask ?keep es), (''emissions'', take_mask ?keep es2)] @
           [(''year'', dt_year ?parsed)])"
    by (rule select4_filter [OF fc _ fd _ fe _ fy]) simp_all
  then show ?thesis
    using f date1 drop g3
    by (simp add: standardise_carbon_monitor_def read_csv_def Let_def dt_year_D)
qed

lemma load_emissions_cases:
  "(carbon_monitor_csv env = Absent \<longrightarrow> load_emissions env = Inr empty_emissions)
 \<and> (carbon_monitor_csv env \<noteq> Absent \<longrightarrow>
      load_emissions env = standardise_carbon_monitor (to_datetime env) (carbon_monitor_csv env))"
  by (cases "carbon_monitor_csv env") (simp_all add: load_emissions_def)




subsection \<open>A table without an emissions column\<close>

lemma getitem_present: "l \<in> set (columns df) \<Longrightarrow> \<exists>c. getitem df l = Inr c"
proof -
  assume "l \<in> set (columns df)"
  then have "map_of df l \<noteq> None" by (simp add: columns_def map_of_eq_None_iff)
  then show ?thesis by (auto simp: getitem_def)
qed

lemma getitem_absent: "l \<notin> set (columns df) \<Longrightarrow> getitem df l = Inl (KeyError l)"
proof -
  assume "l \<notin> set (columns df)"
  then have "map_of df l = None" by (simp add: columns_def map_of_eq_None_iff)
  then show ?thesis by (simp add: getitem_def)
qed

lemma dropna_single:
  "getitem df l = Inr c \<Longrightarrow> dropna df [l] = Inr (keep_rows df (notna_mask (nrows df) [c]))"
  by (simp add: dropna_def)

lemma select_stops_at_emissions:
  assumes "''city'' \<in> set (columns df)" and "''date'' \<in> set (columns df)"
    and "''emissions'' \<notin> set (columns df)"
  shows "select df [''city'', ''date'', ''emissions'', ''year''] = Inl (KeyError ''emissions'')"
proof -
  from pick_present [OF assms(1)] obtain a where a: "pick df ''city'' = Inr a" by blast
  from pick_present [OF assms(2)] obtain b where b: "pick df ''date'' = Inr b" by blast
  from pick_missing [OF assms(3)] a b show ?thesis by (simp add: select_def)
qed

lemma standardise_without_emissions:
  assumes f: "find is_emissions_label (columns df0) = None"
  shows "(\<exists>e. standardise_carbon_monitor to_dt (Contents df0) = Inl e)
       \<and> (''city'' \<in> set (columns df0) \<and> ''date'' \<in> set (columns df0) \<longrightarrow>
            standardise_carbon_monitor to_dt (Contents df0) = Inl (KeyError ''emissions''))"
proof (cases "''date'' \<in> set (columns df0)")
  case False
  then have "standardise_carbon_monitor to_dt (Contents df0) = Inl (KeyError ''date'')"
    by (simp add: standardise_carbon_monitor_def read_csv_def f rename_None getitem_absent)
  with False show ?thesis by simp
next
  case True
  from f not_emissions_city_date(3) have nE: "''emissions'' \<notin> set (columns df0)"
    by (auto simp: find_None_iff)
  from getitem_present [OF True] obtain ds where ds: "getitem df0 ''date'' = Inr ds" by blast
  define df2 where "df2 = setitem df0 ''date'' (coerced (to_dt ds))"
  define df3 where "df3 = keep_rows df2 (notna_mask (nrows df2) [coerced (to_dt ds)])"
  have g2: "getitem df2 ''date'' = Inr (coerced (to_dt ds))"
    by (simp add: df2_def getitem_def map_of_setitem)
  have c2: "columns df2 = columns df0"
    using True by (simp add: df2_def columns_setitem)
  have c3: "columns df3 = columns df0"
    by (simp add: df3_def columns_keep_rows c2)
  with True obtain parsed where g3: "getitem df3 ''date'' = Inr parsed"
    using getitem_present [of "''date''" df3] by auto
  define df4 where "df4 = setitem df3 ''year'' (dt_year parsed)"
  have c4: "set (columns df4) = insert ''year'' (set (columns df0))"
    by (auto simp: df4_def columns_setitem c3)
  have std: "standardise_carbon_monitor to_dt (Contents df0) =
      select df4 [''city'', ''date'', ''emissions'', ''year'']"
    using ds dropna_single [OF g2] g3
    by (simp add: standardise_carbon_monitor_def read_csv_def f rename_None Let_def
        df2_def [symmetric] df3_def [symmetric] df4_def [symmetric])
  from nE c4 have n4: "''emissions'' \<notin> set (columns df4)" by simp
  then have "\<exists>e. select df4 [''city'', ''date'', ''emissions'', ''year''] = Inl e"
    by (intro select_missing [of "''emissions''"]) simp_all
  moreover have "select df4 [''city'', ''date'', ''emissions'', ''year''] = Inl (KeyError ''emissions'')"
    if "''city'' \<in> set (columns df0)"
    using that True c4 n4 by (intro select_stops_at_emissions) simp_all
  ultimately show ?thesis using std by simp
qed

text \<open>
  Claim C9, as the code has it.  When no label matches the heuristic, the normalizer
  raises and returns no table.  The rename is not what raises: with pandas' default
  \<^verbatim>\<open>errors="ignore"\<close> it leaves the table as it is.  The KeyError comes from reading a
  column that is not there: when the table has its \<^verbatim>\<open>city\<close> and \<^verbatim>\<open>date\<close> columns it
  is raised by the final column selection, for the label \<^verbatim>\<open>emissions\<close>.
\<close>

theorem no_emissions_column_fails:
  assumes "find is_emissions_label (columns df0) = None"
  shows "rename_columns df0 (find is_emissions_label (columns df0)) ''emissions'' = df0
       \<and> (\<exists>e. standardise_carbon_monitor to_dt (Contents df0) = Inl e)
       \<and> (''city'' \<in> set (columns df0) \<and> ''date'' \<in> set (columns df0) \<longrightarrow>
            standardise_carbon_monitor to_dt (Contents df0) = Inl (KeyError ''emissions''))"
  using assms standardise_without_emissions [OF assms, of to_dt] by (simp add: rename_None)

theorem no_emissions_column_fails_witness:
  "find is_emissions_label (columns sample_no_emissions) = None
 \<and> ''city'' \<in> set (columns sample_no_emissions)
 \<and> ''date'' \<in> set (columns sample_no_emissions)
 \<and> standardise_carbon_monitor sample_to_datetime (Contents sample_no_emissions) =
     Inl (KeyError ''emissions'')"
proof -
  have h: "find is_emissions_label (columns sample_no_emissions) = None"
    by (simp add: sample_no_emissions_def columns_def is_emissions_label_def lower_def
        lower_char_def startswith_def)
  have c: "''city'' \<in> set (columns sample_no_emissions)"
    "''date'' \<in> set (columns sample_no_emissions)"
    by (simp_all add: sample_no_emissions_def columns_def)
  from no_emissions_column_fails [OF h, of sample_to_datetime] h c show ?thesis by simp
qed

text \<open>
  The claim as stated fails: on a table without an emissions column the rename returns
  the table unchanged, and the error raised names the label \<^verbatim>\<open>emissions\<close> of the
  final selection.
\<close>

theorem rename_does_not_fail_counterexample:
  "find is_emissions_label (columns sample_no_emissions) = None
 \<and> rename_columns sample_no_emissions (find is_emissions_label (columns sample_no_emissions))
      ''emissions'' = sample_no_emissions
 \<and> select sample_no_emissions [''city'', ''date'', ''emissions'', ''year''] =
      Inl (KeyError ''emissions'')
 \<and> standardise_carbon_monitor sample_to_datetime (Contents sample_no_emissions) =
      Inl (KeyError ''emissions'')"
  by code_simp

section \<open>The emissions mean\<close>

lemma take_mask_map: "take_mask (map P xs) (map f xs) = map f (filter P xs)"
  by (induction xs) (simp_all add: take_mask_def)

lemma length_take_mask:
  "length xs = length keep \<Longrightarrow> length (take_mask keep xs) = length (filter id keep)"
  by (induction xs keep rule: list_induct2) (simp_all add: take_mask_def)

lemma take_mask_empty_iff:
  assumes "length xs = length keep" and "length ys = length keep"
  shows "(take_mask keep xs = []) = (take_mask keep ys = [])"
proof -
  from assms have "length (take_mask keep xs) = length (take_mask keep ys)"
    by (simp add: length_take_mask)
  then show ?thesis by (metis length_0_conv)
qed

lemma numeric_values_N: "numeric_values (map N xs) = Inr xs"
  by (induction xs) simp_all

lemma numeric_values_I: "numeric_values (map I ks) = Inr (map real_of_int ks)"
  by (induction ks) simp_all

lemma mean_N: "xs \<noteq> [] \<Longrightarrow> mean (map N xs) = Inr (N (sum_list xs / real (length xs)))"
  by (simp add: mean_def numeric_values_N)

lemma sum_list_of_int: "sum_list (map real_of_int ks) = real_of_int (sum_list ks)"
  by (induction ks) simp_all

lemma mean_I:
  "ks \<noteq> [] \<Longrightarrow> mean (map I ks) = Inr (N (real_of_int (sum_list ks) / real (length ks)))"
  by (simp add: mean_def numeric_values_I sum_list_of_int)

lemma mean_not_series: "mean c \<noteq> Inr (Sr ms)"
  by (cases "numeric_values c") (simp_all add: mean_def)

lemma py_eq_S: "py_eq c (S s) = (c = S s)"
  by (cases c) auto

lemma py_eq_I: "py_eq c (I k) = (c = I k \<or> c = N (real_of_int k))"
  by (cases c) auto

lemma co2_mask_rows:
  "co2_mask cs ys name =
     map (\<lambda>cy. fst cy = S name \<and> (snd cy = I (hd YEARS) \<or> snd cy = N (real_of_int (hd YEARS))))
       (zip cs ys)"
  by (simp add: co2_mask_def py_eq_S py_eq_I)

lemma getattr_series_unique:
  "filter (\<lambda>cv. fst cv = l) df = [(l, c)] \<Longrightarrow> getattr_series df l = Inr c"
  by (simp add: getattr_series_def getattr_def)

lemma getattr_series_present:
  "distinct (columns df) \<Longrightarrow> map_of df l = Some c \<Longrightarrow> getattr_series df l = Inr c"
  by (rule getattr_series_unique) (rule filter_label)

lemma getattr_series_absent:
  "map_of df l = None \<Longrightarrow> getattr_series df l = Inl (AttributeError l)"
proof -
  assume "map_of df l = None"
  then have "l \<notin> set (columns df)" by (simp add: columns_def map_of_eq_None_iff)
  then show ?thesis by (simp add: getattr_series_def getattr_def filter_absent)
qed

lemma co2_of_four:
  assumes "length cs = length ys" and "length es = length ys"
  shows "co2_of [(''city'', cs), (''date'', ds), (''emissions'', es), (''year'', ys)] name =
     (if take_mask (co2_mask cs ys name) es = [] then Inr NA
      else mean (take_mask (co2_mask cs ys name) es))"
proof -
  let ?df = "[(''city'', cs), (''date'', ds), (''emissions'', es), (''year'', ys)]"
  let ?keep = "co2_mask cs ys name"
  have gc: "getattr_series ?df ''city'' = Inr cs" and gy: "getattr_series ?df ''year'' = Inr ys"
    by (simp_all add: getattr_series_def getattr_def)
  have rows: "keep_rows ?df ?keep =
      [(''city'', take_mask ?keep cs), (''date'', take_mask ?keep ds),
       (''emissions'', take_mask ?keep es), (''year'', take_mask ?keep ys)]"
    by (simp add: keep_rows_def)
  from assms have "(take_mask ?keep cs = []) = (take_mask ?keep es = [])"
    by (intro take_mask_empty_iff) (simp_all add: co2_mask_def)
  then have empty: "empty_frame (keep_rows ?df ?keep) = (take_mask ?keep es = [])"
    by (simp add: rows empty_frame_def nrows_def)
  have ge: "getattr (keep_rows ?df ?keep) ''emissions'' = Inr (Column (take_mask ?keep es))"
    by (simp add: rows getattr_def)
  show ?thesis
    unfolding co2_of_def
    by (simp only: gc gy bindE_Inr Let_def empty ge selection_mean_def selection.case) simp
qed

lemma co2_of_five:
  assumes "length cs = length ys" and "length es = length ys"
  shows "co2_of [(''city'', cs), (''date'', ds), (''emissions'', es), (''emissions'', es2),
                 (''year'', ys)] name =
     (if take_mask (co2_mask cs ys name) es = [] then Inr NA
      else bindE (mapE mean [take_mask (co2_mask cs ys name) es,
                             take_mask (co2_mask cs ys name) es2]) (\<lambda>ms. Inr (Sr ms)))"
proof -
  let ?df = "[(''city'', cs), (''date'', ds), (''emissions'', es), (''emissions'', es2),
              (''year'', ys)]"
  let ?keep = "co2_mask cs ys name"
  have gc: "getattr_series ?df ''city'' = Inr cs" and gy: "getattr_series ?df ''year'' = Inr ys"
    by (simp_all add: getattr_series_def getattr_def)
  have rows: "keep_rows ?df ?keep =
      [(''city'', take_mask ?keep cs), (''date'', take_mask ?keep ds),
       (''emissions'', take_mask ?keep es), (''emissions'', take_mask ?keep es2),
       (''year'', take_mask ?keep ys)]"
    by (simp add: keep_rows_def)
  from assms have "(take_mask ?keep cs = []) = (take_mask ?keep es = [])"
    by (intro take_mask_empty_iff) (simp_all add: co2_mask_def)
  then have empty: "empty_frame (keep_rows ?df ?keep) = (take_mask ?keep es = [])"
    by (simp add: rows empty_frame_def nrows_def)
  have ge: "getattr (keep_rows ?df ?keep) ''emissions'' =
      Inr (SubFrame [(''emissions'', take_mask ?keep es), (''emissions'', take_mask ?keep es2)])"
    by (simp add: rows getattr_def)
  show ?thesis
    unfolding co2_of_def
    by (simp only: gc gy bindE_Inr Let_def empty ge selection_mean_def selection.case) simp
qed

lemma co2_of_five_not_number:
  assumes "length cs = length ys" and "length es = length ys"
  shows "co2_of [(''city'', cs), (''date'', ds), (''emissions'', es), (''emissions'', es2),
                 (''year'', ys)] name \<noteq> Inr (N v)"
  by (simp add: co2_of_five [OF assms] bindE_eq_Inr)

section \<open>The fallback resolver\<close>

lemma filter_iloc0:
  "filter (\<lambda>lv. fst lv = l) (iloc0 df) = iloc0 (filter (\<lambda>cv. fst cv = l) df)"
  by (induction df) (auto simp: iloc0_def)

lemma iloc0_Nil: "iloc0 [] = []"
  by (simp add: iloc0_def)

lemma iloc0_Cons: "iloc0 ((l, c) # df) = (l, case c of [] \<Rightarrow> NA | x # xs \<Rightarrow> x) # iloc0 df"
  by (simp add: iloc0_def)

lemma series_attr_row:
  assumes "distinct (columns fb)" and "map_of fb l = Some ps"
  shows "series_attr (iloc0 (keep_rows fb keep)) l =
           Inr (case take_mask keep ps of [] \<Rightarrow> NA | x # xs \<Rightarrow> x)"
  using filter_label [OF assms]
  by (simp add: series_attr_def filter_iloc0 filter_keep_rows keep_rows_Nil keep_rows_Cons
      iloc0_Nil iloc0_Cons)

lemma series_attr_row_absent:
  assumes "map_of fb l = None"
  shows "series_attr (iloc0 (keep_rows fb keep)) l = Inl (AttributeError l)"
proof -
  from assms have "l \<notin> set (columns fb)" by (simp add: columns_def map_of_eq_None_iff)
  then show ?thesis
    by (simp add: series_attr_def filter_iloc0 filter_keep_rows filter_absent keep_rows_Nil
        iloc0_Nil)
qed

lemma take_mask_none: "\<forall>b\<in>set keep. \<not> b \<Longrightarrow> take_mask keep xs = []"
  by (auto simp: take_mask_def filter_empty_conv dest: set_zip_rightD)

lemma nrows_keep_rows_none:
  "\<forall>b\<in>set keep. \<not> b \<Longrightarrow> nrows (keep_rows df keep) = 0"
  by (cases df) (simp_all add: nrows_def keep_rows_def take_mask_none)

lemma nrows_keep_rows:
  assumes "df \<noteq> []" and "\<forall>cv\<in>set df. length (snd cv) = length keep"
  shows "nrows (keep_rows df keep) = length (filter id keep)"
  using assms by (cases df) (simp_all add: nrows_def keep_rows_def length_take_mask)

lemma first_match:
  "length cs = length ps \<Longrightarrow> map_of (zip cs ps) k = Some v \<Longrightarrow>
     (case take_mask (map (\<lambda>c. c = k) cs) ps of [] \<Rightarrow> NA | x # xs \<Rightarrow> x) = v"
  by (induction cs ps rule: list_induct2) (auto simp: take_mask_def)

lemma resolve_no_row:
  assumes "distinct (columns fb)" and "map_of fb ''city'' = Some cs" and "S name \<notin> set cs"
  shows "resolve_pm25 NA (Some fb) name = Inr NA"
proof -
  from assms(3) have "\<forall>b\<in>set (map (\<lambda>c. py_eq c (S name)) cs). \<not> b"
    by (auto simp: py_eq_S)
  then have "nrows (keep_rows fb (map (\<lambda>c. py_eq c (S name)) cs)) = 0"
    by (rule nrows_keep_rows_none)
  with getattr_series_present [OF assms(1,2)] show ?thesis
    by (simp add: resolve_pm25_def isna_def empty_frame_def Let_def)
qed

lemma row_found:
  assumes c: "map_of fb ''city'' = Some cs"
    and wf: "\<forall>cv\<in>set fb. length (snd cv) = length cs"
    and m: "S name \<in> set cs"
  shows "\<not> empty_frame (keep_rows fb (map (\<lambda>c. py_eq c (S name)) cs))"
proof -
  from c have ne: "fb \<noteq> []" by auto
  from m have "filter (\<lambda>c. py_eq c (S name)) cs \<noteq> []"
    by (auto simp: filter_empty_conv py_eq_S)
  moreover have "nrows (keep_rows fb (map (\<lambda>c. py_eq c (S name)) cs)) =
      length (filter (\<lambda>c. py_eq c (S name)) cs)"
    using nrows_keep_rows [OF ne, of "map (\<lambda>c. py_eq c (S name)) cs"] wf
    by (simp add: filter_map comp_def)
  ultimately show ?thesis using ne by (simp add: empty_frame_def keep_rows_def)
qed

lemma resolve_row:
  assumes dl: "distinct (columns fb)"
    and c: "map_of fb ''city'' = Some cs"
    and p: "map_of fb ''pm25'' = Some ps"
    and wf: "\<forall>cv\<in>set fb. length (snd cv) = length cs"
    and m: "map_of (zip cs ps) (S name) = Some v"
  shows "resolve_pm25 NA (Some fb) name = Inr v"
proof -
  from p have "(''pm25'', ps) \<in> set fb" by (rule map_of_SomeD)
  with wf have len: "length cs = length ps" by force
  from m have "S name \<in> set cs" by (auto dest!: map_of_SomeD set_zip_leftD)
  with c wf have ne: "\<not> empty_frame (keep_rows fb (map (\<lambda>c. py_eq c (S name)) cs))"
    by (rule row_found)
  have mask: "map (\<lambda>c. py_eq c (S name)) cs = map (\<lambda>c. c = S name) cs"
    by (simp add: py_eq_S)
  have "series_attr (iloc0 (keep_rows fb (map (\<lambda>c. py_eq c (S name)) cs))) ''pm25'' = Inr v"
    using first_match [OF len m] by (simp add: series_attr_row [OF dl p] mask)
  with getattr_series_present [OF dl c] ne show ?thesis
    by (simp add: resolve_pm25_def isna_def Let_def)
qed

lemma resolve_no_pm25:
  assumes dl: "distinct (columns fb)"
    and c: "map_of fb ''city'' = Some cs"
    and p: "map_of fb ''pm25'' = None"
    and wf: "\<forall>cv\<in>set fb. length (snd cv) = length cs"
    and m: "S name \<in> set cs"
  shows "resolve_pm25 NA (Some fb) name = Inl (AttributeError ''pm25'')"
proof -
  from c wf m have ne: "\<not> empty_frame (keep_rows fb (map (\<lambda>c. py_eq c (S name)) cs))"
    by (rule row_found)
  from getattr_series_present [OF dl c] ne series_attr_row_absent [OF p] show ?thesis
    by (simp add: resolve_pm25_def isna_def Let_def)
qed

lemma city_metrics_pm25:
  assumes "city_metrics env pm_fb cm_df (name, lat, lon) = Inr r"
  shows "resolve_pm25 (get_pm25_latest (http_get env) lat lon (OPENAQ_KEY env)) pm_fb name =
           Inr (pm25 r) \<and> city r = name \<and> co2_of cm_df name = Inr (co2 r)"
  using assms unfolding city_metrics_def
  by (auto elim!: bindE_InrE)

lemma load_fallback_cases:
  "(pm25_fallback_csv env = Absent \<longrightarrow> load_fallback env = Inr None)
 \<and> (pm25_fallback_csv env = Contents fb \<longrightarrow> load_fallback env = Inr (Some fb))
 \<and> (pm25_fallback_csv env = Unreadable \<longrightarrow> load_fallback env = Inl ReadError)"
  by (simp add: load_fallback_def read_csv_def)

subsection \<open>A fallback table without its columns\<close>

lemma resolve_no_city:
  "map_of fb ''city'' = None \<Longrightarrow> resolve_pm25 NA (Some fb) name = Inl (AttributeError ''city'')"
  by (simp add: resolve_pm25_def isna_def getattr_series_absent)

lemma run_stops_at_failing_city:
  assumes "load_emissions env = Inr cm_df" and "load_fallback env = Inr pm_fb"
    and "(name, lat, lon) \<in> set CITIES"
    and "resolve_pm25 (get_pm25_latest (http_get env) lat lon (OPENAQ_KEY env)) pm_fb name = Inl e"
  shows "\<exists>e'. main env = Inl e'"
proof -
  from assms(4) have "city_metrics env pm_fb cm_df (name, lat, lon) = Inl e"
    by (simp add: city_metrics_def)
  with assms(3) obtain e' where "mapE (city_metrics env pm_fb cm_df) CITIES = Inl e'"
    using mapE_fails [of "(name, lat, lon)" CITIES "city_metrics env pm_fb cm_df" e] by auto
  with assms(1,2) show ?thesis by (simp add: main_def assemble_def)
qed

text \<open>
  Claim C10, as the code has it.  A fallback table without a \<^verbatim>\<open>city\<close> column raises
  an AttributeError for a city whose fetch is missing.  A table as \<^verbatim>\<open>read_csv\<close>
  delivers it (distinct labels) with a \<^verbatim>\<open>city\<close> column and without a \<^verbatim>\<open>pm25\<close>
  column raises only for a city that has a row in the table; for a city without a row
  the value stays missing and nothing is raised.  An error raised for a configured city
  ends the run.
\<close>

theorem fallback_missing_columns:
  "(map_of fb ''city'' = None \<longrightarrow>
      resolve_pm25 NA (Some fb) name = Inl (AttributeError ''city''))
 \<and> (distinct (columns fb) \<and> map_of fb ''city'' = Some cs \<and> map_of fb ''pm25'' = None
      \<and> S name \<notin> set cs \<longrightarrow>
      resolve_pm25 NA (Some fb) name = Inr NA)
 \<and> (distinct (columns fb) \<and> map_of fb ''city'' = Some cs \<and> map_of fb ''pm25'' = None
      \<and> (\<forall>cv\<in>set fb. length (snd cv) = length cs) \<and> S name \<in> set cs \<longrightarrow>
      resolve_pm25 NA (Some fb) name = Inl (AttributeError ''pm25''))
 \<and> (load_emissions env = Inr cm_df \<and> load_fallback env = Inr pm_fb
      \<and> (name, lat, lon) \<in> set CITIES
      \<and> resolve_pm25 (get_pm25_latest (http_get env) lat lon (OPENAQ_KEY env)) pm_fb name = Inl e
      \<longrightarrow> (\<exists>e'. main env = Inl e'))"
proof (intro conjI impI)
  assume "map_of fb ''city'' = None"
  then show "resolve_pm25 NA (Some fb) name = Inl (AttributeError ''city'')"
    by (rule resolve_no_city)
next
  assume "distinct (columns fb) \<and> map_of fb ''city'' = Some cs \<and> map_of fb ''pm25'' = None
      \<and> S name \<notin> set cs"
  then show "resolve_pm25 NA (Some fb) name = Inr NA"
    using resolve_no_row [of fb cs name] by simp
next
  assume "distinct (columns fb) \<and> map_of fb ''city'' = Some cs \<and> map_of fb ''pm25'' = None
      \<and> (\<forall>cv\<in>set fb. length (snd cv) = length cs) \<and> S name \<in> set cs"
  then show "resolve_pm25 NA (Some fb) name = Inl (AttributeError ''pm25'')"
    using resolve_no_pm25 [of fb cs name] by simp
next
  assume "load_emissions env = Inr cm_df \<and> load_fallback env = Inr pm_fb
      \<and> (name, lat, lon) \<in> set CITIES
      \<and> resolve_pm25 (get_pm25_latest (http_get env) lat lon (OPENAQ_KEY env)) pm_fb name = Inl e"
  then show "\<exists>e'. main env = Inl e'"
    using run_stops_at_failing_city [of env cm_df pm_fb name lat lon e] by simp
qed

theorem fallback_missing_columns_witness:
  "resolve_pm25 NA (Some fallback_without_city) ''Chicago'' = Inl (AttributeError ''city'')
 \<and> resolve_pm25 NA (Some fallback_without_pm25) ''Chicago'' = Inr NA
 \<and> resolve_pm25 NA (Some fallback_without_pm25) ''Boston'' = Inl (AttributeError ''pm25'')
 \<and> main (offline_env\<lparr>pm25_fallback_csv := Contents fallback_without_city\<rparr>) =
     Inl (AttributeError ''city'')"
proof -
  let ?env = "offline_env\<lparr>pm25_fallback_csv := Contents fallback_without_city\<rparr>"
  have h1: "map_of fallback_without_city ''city'' = None"
    by (simp add: fallback_without_city_def)
  have h0: "distinct (columns fallback_without_pm25)"
    by (simp add: fallback_without_pm25_def columns_def)
  have h2: "map_of fallback_without_pm25 ''city'' = Some [S ''Boston'']"
    and h3: "map_of fallback_without_pm25 ''pm25'' = None"
    and h4: "\<forall>cv\<in>set fallback_without_pm25. length (snd cv) = length [S ''Boston'']"
    by (simp_all add: fallback_without_pm25_def)
  have h5: "load_emissions ?env = Inr empty_emissions"
    and h6: "load_fallback ?env = Inr (Some fallback_without_city)"
    by (simp_all add: load_emissions_def load_fallback_def read_csv_def offline_env_def)
  have h7: "(''Chicago'', 41.8781, -87.6298) \<in> set CITIES"
    by (simp add: CITIES_def)
  have h8: "resolve_pm25 (get_pm25_latest (http_get ?env) 41.8781 (-87.6298) (OPENAQ_KEY ?env))
      (Some fallback_without_city) ''Chicago'' = Inl (AttributeError ''city'')"
    by code_simp
  have h9: "main ?env = Inl (AttributeError ''city'')"
    by code_simp
  from fallback_missing_columns [of fallback_without_city "''Chicago''" "[]" ?env empty_emissions
      "Some fallback_without_city" "41.8781" "-87.6298" "AttributeError ''city''"]
    fallback_missing_columns [of fallback_without_pm25 "''Chicago''" "[S ''Boston'']"]
    fallback_missing_columns [of fallback_without_pm25 "''Boston''" "[S ''Boston'']"]
    h0 h1 h2 h3 h4 h5 h6 h7 h8 h9
  show ?thesis by simp
qed

text \<open>
  The claim as stated fails: with a fallback table that has \<^verbatim>\<open>city\<close> and no \<^verbatim>\<open>pm25\<close>,
  and every fetch missing, the run ends without error when no configured city has a row
  in the table, and every value stays missing.
\<close>

theorem fallback_without_pm25_counterexample:
  "pm25_fallback_csv (offline_env\<lparr>pm25_fallback_csv := Contents fallback_without_pm25\<rparr>) =
     Contents fallback_without_pm25
 \<and> map_of fallback_without_pm25 ''pm25'' = None
 \<and> get_pm25_latest (http_get offline_env) 41.8781 (-87.6298) (OPENAQ_KEY offline_env) = NA
 \<and> main (offline_env\<lparr>pm25_fallback_csv := Contents fallback_without_pm25\<rparr>) =
     Inr offline_metrics"
  by code_simp

section \<open>The metrics table and the facility stage\<close>

lemma mapE_length: "mapE f xs = Inr ys \<Longrightarrow> length ys = length xs"
proof (induction xs arbitrary: ys)
  case Nil
  then show ?case by simp
next
  case (Cons x xs)
  from Cons.prems obtain y where "f x = Inr y"
    and b: "bindE (mapE f xs) (\<lambda>ys. Inr (y # ys)) = Inr ys"
    by (auto elim: bindE_InrE)
  from b obtain rest where "mapE f xs = Inr rest" and "ys = y # rest"
    by (auto elim: bindE_InrE)
  with Cons.IH show ?case by simp
qed

lemma mapE_city_metrics:
  "mapE (city_metrics env pm_fb cm_df) cs = Inr rows \<Longrightarrow> map city rows = map fst cs"
proof (induction cs arbitrary: rows)
  case Nil
  then show ?case by simp
next
  case (Cons c cs)
  from Cons.prems obtain r where r: "city_metrics env pm_fb cm_df c = Inr r"
    and b: "bindE (mapE (city_metrics env pm_fb cm_df) cs) (\<lambda>ys. Inr (r # ys)) = Inr rows"
    by (auto elim: bindE_InrE)
  from b obtain rest where rest: "mapE (city_metrics env pm_fb cm_df) cs = Inr rest"
    and rows: "rows = r # rest"
    by (auto elim: bindE_InrE)
  obtain name lat lon where c: "c = (name, lat, lon)" by (cases c) auto
  from r c city_metrics_pm25 [of env pm_fb cm_df name lat lon r] have "city r = fst c" by simp
  with Cons.IH [OF rest] rows show ?case by simp
qed

lemma assemble_shape:
  assumes "assemble env = Inr m"
  shows "\<exists>rows :: city_row list. length rows = length CITIES \<and> map city rows = map fst CITIES
           \<and> m = [(''city'', map (\<lambda>r. S (city r)) rows),
                  (''latitude'', map (\<lambda>r. N (latitude r)) rows),
                  (''longitude'', map (\<lambda>r. N (longitude r)) rows),
                  (''pm25'', map pm25 rows),
                  (''co2'', map co2 rows),
                  (''tri_facilities'', replicate (length rows) (I 0))]"
proof -
  from assms obtain cm_df pm_fb rows where
    rows: "mapE (city_metrics env pm_fb cm_df) CITIES = Inr rows"
    and m: "m = setitem (DataFrame rows) ''tri_facilities'' (replicate (nrows (DataFrame rows)) (I 0))"
    unfolding assemble_def Let_def by (elim bindE_InrE) simp
  from mapE_length [OF rows] have len: "length rows = length CITIES" .
  then have "rows \<noteq> []" by (auto simp: CITIES_def)
  with m have "m = [(''city'', map (\<lambda>r. S (city r)) rows),
                  (''latitude'', map (\<lambda>r. N (latitude r)) rows),
                  (''longitude'', map (\<lambda>r. N (longitude r)) rows),
                  (''pm25'', map pm25 rows),
                  (''co2'', map co2 rows),
                  (''tri_facilities'', replicate (length rows) (I 0))]"
    by (simp add: DataFrame_def setitem_def columns_def nrows_def)
  with len mapE_city_metrics [OF rows] show ?thesis by - (rule exI [of _ rows], simp)
qed

lemma tri_stage_skip:
  "tri_csv env = Absent \<or> place_zip env = Absent \<or> read_tri (py_float env) (tri_csv env) = None
   \<Longrightarrow> tri_stage env m = Inr m"
  by (auto simp: tri_stage_def)

lemma groupby_size_columns:
  "groupby_size df key name = Inr counts \<Longrightarrow> columns counts = [key, name]"
  unfolding groupby_size_def by (elim bindE_InrE) (auto simp: columns_def)

lemma facility_counts_columns:
  "facility_counts loc tri_gdf place_gdf cities = Inr counts \<Longrightarrow>
     columns counts = [''NAME'', ''tri_facilities'']"
  unfolding facility_counts_def Let_def
  by (elim bindE_InrE) (rule groupby_size_columns)

lemma merge_left_columns:
  "merge_left left right lk rk = Inr merged \<Longrightarrow>
     columns merged = map (merge_label (columns right) ''_x'') (columns left)
                      @ map (merge_label (columns left) ''_y'') (columns right)"
  unfolding merge_left_def by (elim bindE_InrE) (auto simp: columns_def comp_def)

lemma drop_column_columns:
  "drop_column df l = Inr df' \<Longrightarrow> set (columns df') \<subseteq> set (columns df)"
  by (auto simp: drop_column_def columns_def split: if_splits)

lemma suffixed_label:
  assumes "''tri_facilities'' \<in> set left"
  shows "''tri_facilities'' \<notin> set (map (merge_label [''NAME'', ''tri_facilities''] ''_x'') left
            @ map (merge_label left ''_y'') [''NAME'', ''tri_facilities''])"
proof -
  have "''tri_facilities'' \<noteq> merge_label [''NAME'', ''tri_facilities''] ''_x'' l" for l
    by (auto simp: merge_label_def)
  moreover have "merge_label left ''_y'' ''NAME'' \<noteq> ''tri_facilities''"
    by (simp add: merge_label_def)
  moreover from assms have "merge_label left ''_y'' ''tri_facilities'' \<noteq> ''tri_facilities''"
    by (simp add: merge_label_def)
  ultimately show ?thesis by auto
qed

lemma tri_stage_join_raises:
  assumes tf: "''tri_facilities'' \<in> set (columns m)"
    and present: "tri_csv env \<noteq> Absent" "place_zip env \<noteq> Absent"
    and tri: "read_tri (py_float env) (tri_csv env) = Some g"
  shows "\<exists>e. tri_stage env m = Inl e"
proof (cases "tri_stage env m")
  case (Inl e)
  then show ?thesis by blast
next
  case (Inr m')
  with present tri have
    "bindE (read_csv (place_zip env)) (\<lambda>place_gdf.
     bindE (getattr_series m ''city'') (\<lambda>cities.
     bindE (facility_counts (locate env) g place_gdf cities) (\<lambda>counts.
     bindE (merge_left m counts ''city'' ''NAME'') (\<lambda>merged.
     bindE (drop_column merged ''NAME'') (\<lambda>metrics'.
     bindE (getitem metrics' ''tri_facilities'') (\<lambda>col.
       Inr (setitem metrics' ''tri_facilities'' (fillna col (I 0))))))))) = Inr m'"
    by (simp add: tri_stage_def)
  then obtain place_gdf cities counts merged metrics' col where
    counts: "facility_counts (locate env) g place_gdf cities = Inr counts"
    and merged: "merge_left m counts ''city'' ''NAME'' = Inr merged"
    and dropped: "drop_column merged ''NAME'' = Inr metrics'"
    and col: "getitem metrics' ''tri_facilities'' = Inr col"
    by (elim bindE_InrE) blast
  from merge_left_columns [OF merged] facility_counts_columns [OF counts]
  have "columns merged = map (merge_label [''NAME'', ''tri_facilities''] ''_x'') (columns m)
      @ map (merge_label (columns m) ''_y'') [''NAME'', ''tri_facilities'']"
    by simp
  with suffixed_label [OF tf] have "''tri_facilities'' \<notin> set (columns merged)" by simp
  with drop_column_columns [OF dropped] have "''tri_facilities'' \<notin> set (columns metrics')" by blast
  from getitem_absent [OF this] col show ?thesis by simp
qed

lemma tri_stage_Inr:
  assumes "''tri_facilities'' \<in> set (columns m)" and "tri_stage env m = Inr m'"
  shows "m' = m \<and> (tri_csv env = Absent \<or> place_zip env = Absent \<or> read_tri (py_float env) (tri_csv env) = None)"
proof (cases "tri_csv env = Absent \<or> place_zip env = Absent \<or> read_tri (py_float env) (tri_csv env) = None")
  case True
  with tri_stage_skip [OF True, of m] assms(2) show ?thesis by simp
next
  case False
  then obtain g where "tri_csv env \<noteq> Absent" "place_zip env \<noteq> Absent" "read_tri (py_float env) (tri_csv env) = Some g"
    by auto
  from tri_stage_join_raises [OF assms(1) this] assms(2) show ?thesis by simp
qed

subsection \<open>When the stage is skipped\<close>

lemma main_skip:
  assumes "tri_csv env = Absent \<or> place_zip env = Absent \<or> read_tri (py_float env) (tri_csv env) = None"
  shows "main env = assemble env"
proof (cases "assemble env")
  case (Inl e)
  then show ?thesis by (simp add: main_def)
next
  case (Inr m)
  with tri_stage_skip [OF assms, of m] show ?thesis by (simp add: main_def)
qed

lemma assemble_tri_facilities:
  assumes "assemble env = Inr m"
  shows "getitem m ''tri_facilities'' = Inr (replicate (length CITIES) (I 0))"
proof -
  from assemble_shape [OF assms] obtain rows :: "city_row list" where
    "length rows = length CITIES"
    and "m = [(''city'', map (\<lambda>r. S (city r)) rows),
              (''latitude'', map (\<lambda>r. N (latitude r)) rows),
              (''longitude'', map (\<lambda>r. N (longitude r)) rows),
              (''pm25'', map pm25 rows),
              (''co2'', map co2 rows),
              (''tri_facilities'', replicate (length rows) (I 0))]"
    by blast
  then show ?thesis by (simp add: getitem_def)
qed

lemma read_tri_no_file: "read_tri pf Absent = None" "read_tri pf Unreadable = None"
  by (simp_all add: read_tri_def read_tri_try_def read_csv_def)

lemma read_tri_no_columns:
  assumes "find (\<lambda>c. startswith (upper c) ''LAT'') (columns df) = None
         \<or> find (\<lambda>c. startswith (upper c) ''LON'') (columns df) = None"
  shows "read_tri pf (Contents df) = None"
  using assms
  by (auto simp: read_tri_def read_tri_try_def read_csv_def split: option.splits)

lemma unreadable_place:
  assumes "tri_csv env \<noteq> Absent" and "read_tri (py_float env) (tri_csv env) = Some g"
    and "place_zip env = Unreadable"
  shows "tri_stage env m = Inl ReadError"
  using assms by (simp add: tri_stage_def read_csv_def)

text \<open>
  Claim C2, as the code has it.  The stage is skipped, and the table is left as it was
  assembled, with 0 in every row of \<^verbatim>\<open>tri_facilities\<close>, when the facility file or the
  boundary archive is absent and when \<^verbatim>\<open>_read_tri\<close> returns \<^verbatim>\<open>None\<close>; \<^verbatim>\<open>_read_tri\<close>
  returns \<^verbatim>\<open>None\<close>, raising nothing, when the file cannot be read and when no
  latitude or longitude column is found.  Nothing else is caught: when the facility
  table was read and the boundary archive exists but cannot be read, the error leaves
  the stage and ends the run.
\<close>

theorem facility_stage_skips:
  "(tri_csv env = Absent \<or> place_zip env = Absent \<or> read_tri (py_float env) (tri_csv env) = None \<longrightarrow>
      tri_stage env metrics = Inr metrics \<and> main env = assemble env)
 \<and> (assemble env = Inr m \<longrightarrow>
      getitem m ''tri_facilities'' = Inr (replicate (length CITIES) (I 0)))
 \<and> read_tri pf Absent = None
 \<and> read_tri pf Unreadable = None
 \<and> (find (\<lambda>c. startswith (upper c) ''LAT'') (columns df) = None
      \<or> find (\<lambda>c. startswith (upper c) ''LON'') (columns df) = None \<longrightarrow>
      read_tri pf (Contents df) = None)
 \<and> (tri_csv env \<noteq> Absent \<and> read_tri (py_float env) (tri_csv env) = Some g \<and> place_zip env = Unreadable \<longrightarrow>
      tri_stage env metrics = Inl ReadError
      \<and> (assemble env = Inr m \<longrightarrow> main env = Inl ReadError))"
proof (intro conjI impI)
  assume a: "tri_csv env = Absent \<or> place_zip env = Absent \<or> read_tri (py_float env) (tri_csv env) = None"
  from a show "tri_stage env metrics = Inr metrics" by (rule tri_stage_skip)
  from a show "main env = assemble env" by (rule main_skip)
next
  assume "assemble env = Inr m"
  then show "getitem m ''tri_facilities'' = Inr (replicate (length CITIES) (I 0))"
    by (rule assemble_tri_facilities)
next
  show "read_tri pf Absent = None" "read_tri pf Unreadable = None" by (rule read_tri_no_file)+
next
  assume "find (\<lambda>c. startswith (upper c) ''LAT'') (columns df) = None
      \<or> find (\<lambda>c. startswith (upper c) ''LON'') (columns df) = None"
  then show "read_tri pf (Contents df) = None" by (rule read_tri_no_columns)
next
  assume a: "tri_csv env \<noteq> Absent \<and> read_tri (py_float env) (tri_csv env) = Some g \<and> place_zip env = Unreadable"
  then show "tri_stage env metrics = Inl ReadError" by (simp add: unreadable_place)
  assume "assemble env = Inr m"
  with a show "main env = Inl ReadError" by (simp add: main_def unreadable_place)
qed

theorem facility_stage_skips_witness:
  "main offline_env = Inr offline_metrics
 \<and> getitem offline_metrics ''tri_facilities'' = Inr (replicate (length CITIES) (I 0))
 \<and> read_tri sample_py_float (Contents sample_no_emissions) = None
 \<and> main (offline_env\<lparr>tri_csv := Contents sample_no_emissions, place_zip := Contents sample_places\<rparr>)
     = Inr offline_metrics
 \<and> main unreadable_place_env = Inl ReadError"
proof -
  let ?env = "offline_env\<lparr>tri_csv := Contents sample_no_emissions, place_zip := Contents sample_places\<rparr>"
  have a: "assemble offline_env = Inr offline_metrics"
    "assemble ?env = Inr offline_metrics"
    "assemble unreadable_place_env = Inr offline_metrics"
    by code_simp+
  have b: "tri_csv offline_env = Absent"
    by (simp add: offline_env_def)
  have c: "find (\<lambda>c. startswith (upper c) ''LAT'') (columns sample_no_emissions) = None"
    by code_simp
  have d: "tri_csv ?env = Contents sample_no_emissions"
    by (simp add: offline_env_def)
  have p: "py_float offline_env = sample_py_float"
    by (simp add: offline_env_def)
  have e: "tri_csv unreadable_place_env \<noteq> Absent"
    "place_zip unreadable_place_env = Unreadable"
    by (simp_all add: unreadable_place_env_def offline_env_def)
  have f: "read_tri (py_float unreadable_place_env) (tri_csv unreadable_place_env) \<noteq> None"
    by code_simp
  then obtain g where g: "read_tri (py_float unreadable_place_env) (tri_csv unreadable_place_env) = Some g" by blast
  from facility_stage_skips [where env = offline_env and metrics = offline_metrics
      and m = offline_metrics and pf = sample_py_float and df = sample_no_emissions]
    facility_stage_skips [where env = "?env" and metrics = offline_metrics
      and m = offline_metrics and pf = sample_py_float and df = sample_no_emissions]
    facility_stage_skips [where env = unreadable_place_env and metrics = offline_metrics
      and m = offline_metrics and pf = sample_py_float and df = sample_no_emissions and g = g]
    a b c d e g p
  show ?thesis by simp
qed

text \<open>
  The claim as stated fails: with the facility table read and a boundary archive that
  exists but cannot be read, the error of the read leaves the stage and the run ends
  with it.
\<close>

theorem unreadable_boundary_counterexample:
  "tri_csv unreadable_place_env = Contents sample_tri
 \<and> place_zip unreadable_place_env = Unreadable
 \<and> assemble unreadable_place_env = Inr offline_metrics
 \<and> tri_stage unreadable_place_env offline_metrics = Inl ReadError
 \<and> main unreadable_place_env = Inl ReadError"
  by code_simp

subsection \<open>When the join is attempted\<close>

lemma assemble_columns:
  assumes "assemble env = Inr m"
  shows "columns m = [''city'', ''latitude'', ''longitude'', ''pm25'', ''co2'', ''tri_facilities'']
       \<and> getitem m ''city'' = Inr (map (\<lambda>c. S (fst c)) CITIES)
       \<and> (\<forall>cv\<in>set m. length (snd cv) = length CITIES)
       \<and> nrows m = length CITIES"
proof -
  from assemble_shape [OF assms] obtain rows :: "city_row list" where
    len: "length rows = length CITIES" and c: "map city rows = map fst CITIES"
    and m: "m = [(''city'', map (\<lambda>r. S (city r)) rows),
              (''latitude'', map (\<lambda>r. N (latitude r)) rows),
              (''longitude'', map (\<lambda>r. N (longitude r)) rows),
              (''pm25'', map pm25 rows),
              (''co2'', map co2 rows),
              (''tri_facilities'', replicate (length rows) (I 0))]"
    by blast
  from c have "map (\<lambda>r. S (city r)) rows = map (\<lambda>c. S (fst c)) CITIES"
    using map_map [of S city rows] map_map [of S fst CITIES] by (simp add: comp_def)
  with len m show ?thesis by (simp add: columns_def getitem_def nrows_def)
qed

lemma main_Inr:
  assumes "main env = Inr m"
  shows "assemble env = Inr m
       \<and> (tri_csv env = Absent \<or> place_zip env = Absent \<or> read_tri (py_float env) (tri_csv env) = None)"
proof -
  from assms obtain m0 where a: "assemble env = Inr m0" and t: "tri_stage env m0 = Inr m"
    unfolding main_def by (elim bindE_InrE)
  from assemble_columns [OF a] have "''tri_facilities'' \<in> set (columns m0)" by simp
  from tri_stage_Inr [OF this t] a show ?thesis by simp
qed

subsection \<open>The rows of the merged table\<close>

lemma length_filter_zip:
  "length v = length ks \<Longrightarrow>
     length (filter (\<lambda>xk. P (snd xk)) (zip v ks)) = length (filter P ks)"
  by (induction v ks rule: list_induct2) simp_all

lemma length_right_matches:
  "length v = length rkeys \<Longrightarrow>
     length (right_matches rkeys k v) = length (filter (key_eq k) rkeys)"
  by (simp add: right_matches_def length_filter_zip)

lemma left_rows_kept:
  assumes "length col = length lkeys"
    and "\<forall>k\<in>set lkeys. n k \<le> (1::nat)"
  shows "concat (map (\<lambda>xk. replicate (max 1 (n (snd xk))) (fst xk)) (zip col lkeys)) = col"
  using assms
proof (induction col lkeys rule: list_induct2)
  case Nil
  then show ?case by simp
next
  case (Cons x xs k ks)
  from Cons.prems have "max 1 (n k) = 1" by (simp add: max_def)
  with Cons show ?case by simp
qed

lemma right_rows_length:
  assumes "length v = length rkeys"
    and "\<forall>k\<in>set lkeys. length (filter (key_eq k) rkeys) \<le> 1"
  shows "length (concat (map (\<lambda>k. case right_matches rkeys k v of [] \<Rightarrow> [NA] | xs \<Rightarrow> xs) lkeys))
           = length lkeys"
  using assms(2)
proof (induction lkeys)
  case Nil
  then show ?case by simp
next
  case (Cons k lkeys)
  from Cons.prems have "length (right_matches rkeys k v) \<le> 1"
    by (simp add: length_right_matches [OF assms(1)])
  then have "length (case right_matches rkeys k v of [] \<Rightarrow> [NA] | xs \<Rightarrow> xs) = 1"
    by (cases "right_matches rkeys k v") simp_all
  with Cons show ?case by simp
qed

lemma merge_left_unique_keys:
  assumes lk: "getitem left lk = Inr lkeys" and rk: "getitem right rk = Inr rkeys"
    and one: "\<forall>k\<in>set lkeys. length (filter (key_eq k) rkeys) \<le> 1"
    and len: "\<forall>cv\<in>set left. length (snd cv) = length lkeys"
  shows "merge_left left right lk rk =
     Inr (map (\<lambda>cv. (merge_label (columns right) ''_x'' (fst cv), snd cv)) left
          @ map (\<lambda>cv. (merge_label (columns left) ''_y'' (fst cv),
                        concat (map (\<lambda>k. case right_matches rkeys k (snd cv) of
                                             [] \<Rightarrow> [NA] | xs \<Rightarrow> xs) lkeys))) right)"
proof -
  have "concat (map (\<lambda>xk. replicate (max 1 (length (right_matches rkeys (snd xk) rkeys)))
                            (fst xk)) (zip (snd cv) lkeys)) = snd cv"
    if "cv \<in> set left" for cv
  proof (rule left_rows_kept)
    from that len show "length (snd cv) = length lkeys" by simp
    from one show "\<forall>k\<in>set lkeys. length (right_matches rkeys k rkeys) \<le> 1"
      by (simp add: length_right_matches)
  qed
  then show ?thesis
    using lk rk by (simp add: merge_left_def cong: map_cong)
qed

lemma key_eq_S: "key_eq (S a) = (\<lambda>x. x = S a)"
proof
  fix x
  show "key_eq (S a) x = (x = S a)" by (cases x) (auto simp: key_eq_def isna_def)
qed

lemma distinct_filter_eq: "distinct xs \<Longrightarrow> length (filter (\<lambda>x. x = a) xs) \<le> 1"
  by (induction xs) (auto simp: filter_empty_conv)

lemma facility_counts_shape:
  assumes "facility_counts loc tri_gdf place_gdf cities = Inr counts"
  shows "\<exists>names ns. distinct names \<and> length ns = length names
           \<and> counts = [(''NAME'', names), (''tri_facilities'', ns)]"
proof -
  from assms obtain tri_in where "groupby_size tri_in ''NAME'' ''tri_facilities'' = Inr counts"
    unfolding facility_counts_def Let_def by (elim bindE_InrE)
  then obtain col where "counts = [(''NAME'', group_keys col),
      (''tri_facilities'', map (\<lambda>k. I (int (length (filter (\<lambda>c. c = k) col)))) (group_keys col))]"
    unfolding groupby_size_def by (auto elim!: bindE_InrE)
  moreover have "distinct (group_keys col)" by (simp add: group_keys_def)
  ultimately show ?thesis by simp
qed

lemma merged_rows:
  assumes a: "assemble env = Inr m"
    and f: "facility_counts loc tri_gdf place_gdf cities = Inr counts"
  shows "\<exists>merged. merge_left m counts ''city'' ''NAME'' = Inr merged
           \<and> getitem merged ''city'' = Inr (map (\<lambda>c. S (fst c)) CITIES)
           \<and> (\<forall>cv\<in>set merged. length (snd cv) = length CITIES)
           \<and> columns merged = [''city'', ''latitude'', ''longitude'', ''pm25'', ''co2'',
                ''tri_facilities_x'', ''NAME'', ''tri_facilities_y'']"
proof -
  let ?lkeys = "map (\<lambda>c. S (fst c)) CITIES"
  from assemble_columns [OF a] have
    cm: "columns m = [''city'', ''latitude'', ''longitude'', ''pm25'', ''co2'', ''tri_facilities'']"
    and lk: "getitem m ''city'' = Inr ?lkeys"
    and len: "\<forall>cv\<in>set m. length (snd cv) = length CITIES"
    by simp_all
  from cm obtain c1 c2 c3 c4 c5 c6 where m: "m = [(''city'', c1), (''latitude'', c2),
      (''longitude'', c3), (''pm25'', c4), (''co2'', c5), (''tri_facilities'', c6)]"
    by (auto simp: columns_def)
  from lk m have c1: "c1 = ?lkeys" by (simp add: getitem_def)
  from facility_counts_shape [OF f] obtain names ns where d: "distinct names"
    and ln: "length ns = length names"
    and counts: "counts = [(''NAME'', names), (''tri_facilities'', ns)]"
    by blast
  have rk: "getitem counts ''NAME'' = Inr names" by (simp add: counts getitem_def)
  have one: "\<forall>k\<in>set ?lkeys. length (filter (key_eq k) names) \<le> 1"
  proof
    fix k
    assume "k \<in> set ?lkeys"
    then obtain a where "k = S a" by auto
    with distinct_filter_eq [OF d, of "S a"] show "length (filter (key_eq k) names) \<le> 1"
      by (simp add: key_eq_S)
  qed
  from len have len': "\<forall>cv\<in>set m. length (snd cv) = length ?lkeys" by simp
  note mg = merge_left_unique_keys [OF lk rk one len']
  have r1: "length (concat (map (\<lambda>k. case right_matches names k names of [] \<Rightarrow> [NA] | xs \<Rightarrow> xs)
      ?lkeys)) = length ?lkeys"
    by (rule right_rows_length [OF _ one]) simp
  have r2: "length (concat (map (\<lambda>k. case right_matches names k ns of [] \<Rightarrow> [NA] | xs \<Rightarrow> xs)
      ?lkeys)) = length ?lkeys"
    by (rule right_rows_length [OF ln one])
  show ?thesis
    using r1 r2 len
    by (simp add: mg) (simp add: m c1 counts getitem_def columns_def merge_label_def)
qed


lemma join_raises_KeyError:
  assumes present: "tri_csv env \<noteq> Absent" "place_zip env = Contents place_gdf"
    and tri: "read_tri (py_float env) (tri_csv env) = Some g"
    and a: "assemble env = Inr m"
    and f: "facility_counts (locate env) g place_gdf (map (\<lambda>c. S (fst c)) CITIES) = Inr counts"
  shows "main env = Inl (KeyError ''tri_facilities'')"
proof -
  from assemble_columns [OF a] have
    cm: "columns m = [''city'', ''latitude'', ''longitude'', ''pm25'', ''co2'', ''tri_facilities'']"
    and lk: "getitem m ''city'' = Inr (map (\<lambda>c. S (fst c)) CITIES)"
    by simp_all
  from cm have "distinct (columns m)" by simp
  moreover from lk have "map_of m ''city'' = Some (map (\<lambda>c. S (fst c)) CITIES)"
    by (simp add: getitem_def split: option.splits)
  ultimately have ga: "getattr_series m ''city'' = Inr (map (\<lambda>c. S (fst c)) CITIES)"
    by (rule getattr_series_present)
  from merged_rows [OF a f] obtain merged where
    mg: "merge_left m counts ''city'' ''NAME'' = Inr merged"
    and cols: "columns merged = [''city'', ''latitude'', ''longitude'', ''pm25'', ''co2'',
                ''tri_facilities_x'', ''NAME'', ''tri_facilities_y'']"
    by blast
  from cols have dr: "drop_column merged ''NAME'' = Inr (filter (\<lambda>cv. fst cv \<noteq> ''NAME'') merged)"
    by (simp add: drop_column_def)
  from cols have "''tri_facilities'' \<notin> set (columns merged)" by simp
  with drop_column_columns [OF dr]
  have "''tri_facilities'' \<notin> set (columns (filter (\<lambda>cv. fst cv \<noteq> ''NAME'') merged))"
    by blast
  from getitem_absent [OF this] present tri a ga f mg dr show ?thesis
    by (simp add: main_def tri_stage_def read_csv_def)
qed

text \<open>
  Claim C1 on the code.  The column is set to 0 in every row before the stage, and a
  run that skips the stage keeps it.  A run that attempts the join never produces a
  table: both tables of the merge at line 123 carry the label \<^verbatim>\<open>tri_facilities\<close>, so
  the merged table carries \<^verbatim>\<open>tri_facilities_x\<close> and \<^verbatim>\<open>tri_facilities_y\<close> and no
  \<^verbatim>\<open>tri_facilities\<close>, and line 124 raises KeyError.  Whenever both files are there and
  \<^verbatim>\<open>_read_tri\<close> returns a table, the run ends with an error.
\<close>

theorem join_attempt_never_returns:
  assumes "tri_csv env \<noteq> Absent" and "place_zip env \<noteq> Absent"
    and "read_tri (py_float env) (tri_csv env) = Some g"
  shows "(\<exists>e. main env = Inl e)
       \<and> (\<forall>m counts merged. assemble env = Inr m
             \<and> facility_counts (locate env) g place_gdf cities = Inr counts
             \<and> merge_left m counts ''city'' ''NAME'' = Inr merged \<longrightarrow>
             ''tri_facilities'' \<notin> set (columns merged)
             \<and> ''tri_facilities_x'' \<in> set (columns merged)
             \<and> ''tri_facilities_y'' \<in> set (columns merged))"
proof
  show "\<exists>e. main env = Inl e"
  proof (cases "main env")
    case (Inl e)
    then show ?thesis by blast
  next
    case (Inr m)
    from main_Inr [OF this] assms show ?thesis by simp
  qed
next
  show "\<forall>m counts merged. assemble env = Inr m
             \<and> facility_counts (locate env) g place_gdf cities = Inr counts
             \<and> merge_left m counts ''city'' ''NAME'' = Inr merged \<longrightarrow>
             ''tri_facilities'' \<notin> set (columns merged)
             \<and> ''tri_facilities_x'' \<in> set (columns merged)
             \<and> ''tri_facilities_y'' \<in> set (columns merged)"
  proof (intro allI impI)
    fix m counts merged
    assume a: "assemble env = Inr m
             \<and> facility_counts (locate env) g place_gdf cities = Inr counts
             \<and> merge_left m counts ''city'' ''NAME'' = Inr merged"
    then have cm: "columns m = [''city'', ''latitude'', ''longitude'', ''pm25'', ''co2'', ''tri_facilities'']"
      using assemble_columns by blast
    from a have cc: "columns counts = [''NAME'', ''tri_facilities'']"
      using facility_counts_columns by blast
    from a merge_left_columns have "columns merged =
        map (merge_label (columns counts) ''_x'') (columns m)
        @ map (merge_label (columns m) ''_y'') (columns counts)"
      by blast
    then show "''tri_facilities'' \<notin> set (columns merged)
             \<and> ''tri_facilities_x'' \<in> set (columns merged)
             \<and> ''tri_facilities_y'' \<in> set (columns merged)"
      by (simp add: cm cc merge_label_def)
  qed
qed

theorem join_attempt_never_returns_witness:
  "tri_csv join_env \<noteq> Absent \<and> place_zip join_env \<noteq> Absent
 \<and> read_tri (py_float join_env) (tri_csv join_env) \<noteq> None
 \<and> main join_env = Inl (KeyError ''tri_facilities'')
 \<and> read_tri sample_py_float (Contents sample_tri_text) =
     Some [(''FACILITY_NAME'', [S ''Plant A'']), (''LATITUDE'', [S ''41.5'']),
           (''LONGITUDE'', [S ''4_1'']), (''geometry'', [Pt 41 41.5])]
 \<and> (\<exists>e. main text_join_env = Inl e)"
proof -
  have ta: "tri_csv text_join_env \<noteq> Absent" "place_zip text_join_env \<noteq> Absent"
    by (simp_all add: text_join_env_def offline_env_def)
  have tb: "read_tri sample_py_float (Contents sample_tri_text) =
     Some [(''FACILITY_NAME'', [S ''Plant A'']), (''LATITUDE'', [S ''41.5'']),
           (''LONGITUDE'', [S ''4_1'']), (''geometry'', [Pt 41 41.5])]"
    by code_simp
  have "py_float text_join_env = sample_py_float"
    "tri_csv text_join_env = Contents sample_tri_text"
    by (simp_all add: text_join_env_def offline_env_def)
  with tb have tg: "read_tri (py_float text_join_env) (tri_csv text_join_env) =
     Some [(''FACILITY_NAME'', [S ''Plant A'']), (''LATITUDE'', [S ''41.5'']),
           (''LONGITUDE'', [S ''4_1'']), (''geometry'', [Pt 41 41.5])]"
    by simp
  from join_attempt_never_returns [OF ta tg] have tc: "\<exists>e. main text_join_env = Inl e"
    by simp
  have a: "tri_csv join_env \<noteq> Absent" "place_zip join_env \<noteq> Absent"
    by (simp_all add: join_env_def offline_env_def)
  have b: "read_tri (py_float join_env) (tri_csv join_env) \<noteq> None"
    by code_simp
  then obtain g where g: "read_tri (py_float join_env) (tri_csv join_env) = Some g" by blast
  have c: "main join_env = Inl (KeyError ''tri_facilities'')"
    by code_simp
  from join_attempt_never_returns [OF a g] a b c tb tc show ?thesis by simp
qed

text \<open>
  Claim C6 on the code.  The table assembled at line 111 has one row for each
  configured city, in the configured order, and a table that a run returns is that
  table.  The merge of line 123 keeps this: the counts have one row for each name, so
  the merged table still has one row for each configured city, in order, under the
  labels city, latitude, longitude, pm25, co2, \<^verbatim>\<open>tri_facilities_x\<close>, NAME,
  \<^verbatim>\<open>tri_facilities_y\<close>.  But no run that reaches the merge has an output table:
  whenever both files are there and \<^verbatim>\<open>_read_tri\<close> returns a table the run ends with
  an error, and when the boundaries were read and the counts computed the error is the
  KeyError for \<^verbatim>\<open>tri_facilities\<close> of line 124.
\<close>

theorem rows_follow_cities_until_join:
  "(assemble env = Inr m \<longrightarrow>
      getitem m ''city'' = Inr (map (\<lambda>c. S (fst c)) CITIES)
      \<and> (\<forall>cv\<in>set m. length (snd cv) = length CITIES)
      \<and> nrows m = length CITIES
      \<and> columns m = [''city'', ''latitude'', ''longitude'', ''pm25'', ''co2'', ''tri_facilities''])
 \<and> (main env = Inr m \<longrightarrow> assemble env = Inr m)
 \<and> (assemble env = Inr m \<and> facility_counts loc tri_gdf place_gdf cities = Inr counts \<longrightarrow>
      (\<exists>merged. merge_left m counts ''city'' ''NAME'' = Inr merged
         \<and> getitem merged ''city'' = Inr (map (\<lambda>c. S (fst c)) CITIES)
         \<and> (\<forall>cv\<in>set merged. length (snd cv) = length CITIES)
         \<and> columns merged = [''city'', ''latitude'', ''longitude'', ''pm25'', ''co2'',
              ''tri_facilities_x'', ''NAME'', ''tri_facilities_y'']))
 \<and> (tri_csv env \<noteq> Absent \<and> place_zip env \<noteq> Absent
      \<and> read_tri (py_float env) (tri_csv env) = Some g \<longrightarrow> (\<exists>e. main env = Inl e))
 \<and> (tri_csv env \<noteq> Absent \<and> place_zip env = Contents place_gdf
      \<and> read_tri (py_float env) (tri_csv env) = Some g \<and> assemble env = Inr m
      \<and> facility_counts (locate env) g place_gdf (map (\<lambda>c. S (fst c)) CITIES) = Inr counts \<longrightarrow>
      main env = Inl (KeyError ''tri_facilities''))"
proof (intro conjI impI)
  assume "assemble env = Inr m"
  from assemble_columns [OF this]
  show "getitem m ''city'' = Inr (map (\<lambda>c. S (fst c)) CITIES)"
    and "\<forall>cv\<in>set m. length (snd cv) = length CITIES"
    and "nrows m = length CITIES"
    and "columns m = [''city'', ''latitude'', ''longitude'', ''pm25'', ''co2'', ''tri_facilities'']"
    by simp_all
next
  assume "main env = Inr m"
  from main_Inr [OF this] show "assemble env = Inr m" by simp
next
  assume "assemble env = Inr m \<and> facility_counts loc tri_gdf place_gdf cities = Inr counts"
  then have a: "assemble env = Inr m"
    and f: "facility_counts loc tri_gdf place_gdf cities = Inr counts"
    by simp_all
  from merged_rows [OF a f]
  show "\<exists>merged. merge_left m counts ''city'' ''NAME'' = Inr merged
         \<and> getitem merged ''city'' = Inr (map (\<lambda>c. S (fst c)) CITIES)
         \<and> (\<forall>cv\<in>set merged. length (snd cv) = length CITIES)
         \<and> columns merged = [''city'', ''latitude'', ''longitude'', ''pm25'', ''co2'',
              ''tri_facilities_x'', ''NAME'', ''tri_facilities_y'']" .
next
  assume h: "tri_csv env \<noteq> Absent \<and> place_zip env \<noteq> Absent
      \<and> read_tri (py_float env) (tri_csv env) = Some g"
  show "\<exists>e. main env = Inl e"
  proof (cases "main env")
    case (Inl e)
    then show ?thesis by blast
  next
    case (Inr m')
    from main_Inr [OF this] h show ?thesis by simp
  qed
next
  assume "tri_csv env \<noteq> Absent \<and> place_zip env = Contents place_gdf
      \<and> read_tri (py_float env) (tri_csv env) = Some g \<and> assemble env = Inr m
      \<and> facility_counts (locate env) g place_gdf (map (\<lambda>c. S (fst c)) CITIES) = Inr counts"
  then show "main env = Inl (KeyError ''tri_facilities'')"
    using join_raises_KeyError [of env place_gdf g m counts] by simp
qed

theorem rows_follow_cities_until_join_witness:
  "assemble join_env = Inr offline_metrics
 \<and> getitem offline_metrics ''city'' =
     Inr [S ''New York'', S ''Los Angeles'', S ''Chicago'', S ''Houston'', S ''Phoenix'',
          S ''Philadelphia'', S ''Tampa'']
 \<and> nrows offline_metrics = 7
 \<and> main offline_env = Inr offline_metrics
 \<and> merge_left offline_metrics [(''NAME'', [S ''Chicago'']), (''tri_facilities'', [I 1])]
      ''city'' ''NAME'' =
     Inr [(''city'', [S ''New York'', S ''Los Angeles'', S ''Chicago'', S ''Houston'',
                      S ''Phoenix'', S ''Philadelphia'', S ''Tampa'']),
          (''latitude'', [N 40.7128, N 34.0522, N 41.8781, N 29.7604, N 33.4484, N 39.9526,
                          N 27.9506]),
          (''longitude'', [N (-74.0060), N (-118.2437), N (-87.6298), N (-95.3698),
                           N (-112.0740), N (-75.1652), N (-82.4572)]),
          (''pm25'', [NA, NA, NA, NA, NA, NA, NA]),
          (''co2'', [NA, NA, NA, NA, NA, NA, NA]),
          (''tri_facilities_x'', [I 0, I 0, I 0, I 0, I 0, I 0, I 0]),
          (''NAME'', [NA, NA, S ''Chicago'', NA, NA, NA, NA]),
          (''tri_facilities_y'', [NA, NA, I 1, NA, NA, NA, NA])]
 \<and> main join_env = Inl (KeyError ''tri_facilities'')"
proof -
  let ?counts = "[(''NAME'', [S ''Chicago'']), (''tri_facilities'', [I 1])]"
  have a: "assemble join_env = Inr offline_metrics" "assemble offline_env = Inr offline_metrics"
    by code_simp+
  have b: "main offline_env = Inr offline_metrics"
    by code_simp
  have c: "tri_csv join_env \<noteq> Absent" "place_zip join_env = Contents sample_places"
    "place_zip join_env \<noteq> Absent"
    by (simp_all add: join_env_def offline_env_def)
  have d: "read_tri (py_float join_env) (tri_csv join_env) \<noteq> None"
    by code_simp
  then obtain g where g: "read_tri (py_float join_env) (tri_csv join_env) = Some g" by blast
  have "map_option (\<lambda>tri_gdf. facility_counts (locate join_env) tri_gdf sample_places
        (map (\<lambda>c. S (fst c)) CITIES)) (read_tri (py_float join_env) (tri_csv join_env)) =
      Some (Inr ?counts)"
    by code_simp
  with g have f: "facility_counts (locate join_env) g sample_places
      (map (\<lambda>c. S (fst c)) CITIES) = Inr ?counts"
    by simp
  have mg: "merge_left offline_metrics ?counts ''city'' ''NAME'' =
     Inr [(''city'', [S ''New York'', S ''Los Angeles'', S ''Chicago'', S ''Houston'',
                      S ''Phoenix'', S ''Philadelphia'', S ''Tampa'']),
          (''latitude'', [N 40.7128, N 34.0522, N 41.8781, N 29.7604, N 33.4484, N 39.9526,
                          N 27.9506]),
          (''longitude'', [N (-74.0060), N (-118.2437), N (-87.6298), N (-95.3698),
                           N (-112.0740), N (-75.1652), N (-82.4572)]),
          (''pm25'', [NA, NA, NA, NA, NA, NA, NA]),
          (''co2'', [NA, NA, NA, NA, NA, NA, NA]),
          (''tri_facilities_x'', [I 0, I 0, I 0, I 0, I 0, I 0, I 0]),
          (''NAME'', [NA, NA, S ''Chicago'', NA, NA, NA, NA]),
          (''tri_facilities_y'', [NA, NA, I 1, NA, NA, NA, NA])]"
    by code_simp
  note t = rows_follow_cities_until_join [where env = join_env and m = offline_metrics
      and loc = "locate join_env" and tri_gdf = g and place_gdf = sample_places
      and cities = "map (\<lambda>c. S (fst c)) CITIES" and counts = ?counts and g = g]
  note u = rows_follow_cities_until_join [where env = offline_env and m = offline_metrics]
  from u b have "assemble offline_env = Inr offline_metrics" by simp
  from t a c g f have k: "main join_env = Inl (KeyError ''tri_facilities'')" by simp
  from t a have "getitem offline_metrics ''city'' = Inr (map (\<lambda>c. S (fst c)) CITIES)"
    and "nrows offline_metrics = length CITIES"
    by simp_all
  with a b mg k show ?thesis by (simp add: CITIES_def)
qed

text \<open>
  Claim C7 on the code.  Of the four sample facilities one lies inside the Chicago
  polygon, one on its edge, one outside every polygon, and one has no latitude.  The
  join and the group-by of lines 121 and 122 count the first and no other, as the claim
  says; the count never reaches the metrics table, because line 124 raises KeyError.
\<close>

theorem join_counts_lost:
  "locate join_env (-87.5, 41.5) [(-88, 41), (-87, 41), (-87, 42), (-88, 42)] = Interior
 \<and> locate join_env (-87.5, 41) [(-88, 41), (-87, 41), (-87, 42), (-88, 42)] = Boundary
 \<and> locate join_env (0, 50) [(-88, 41), (-87, 41), (-87, 42), (-88, 42)] = Exterior
 \<and> map_option (\<lambda>tri_gdf. facility_counts (locate join_env) tri_gdf sample_places
        (map (\<lambda>c. S (fst c)) CITIES)) (read_tri (py_float join_env) (tri_csv join_env)) =
    Some (Inr [(''NAME'', [S ''Chicago'']), (''tri_facilities'', [I 1])])
 \<and> main join_env = Inl (KeyError ''tri_facilities'')"
  by code_simp

section \<open>The values of the assembled table\<close>

lemma mapE_city_metrics_values:
  "mapE (city_metrics env pm_fb cm_df) cs = Inr rows \<Longrightarrow>
     map (\<lambda>r. Inr (pm25 r)) rows =
       map (\<lambda>c. resolve_pm25 (get_pm25_latest (http_get env) (fst (snd c)) (snd (snd c))
                                (OPENAQ_KEY env)) pm_fb (fst c)) cs
   \<and> map (\<lambda>r. Inr (co2 r)) rows = map (\<lambda>c. co2_of cm_df (fst c)) cs"
proof (induction cs arbitrary: rows)
  case Nil
  then show ?case by simp
next
  case (Cons c cs)
  from Cons.prems obtain r where r: "city_metrics env pm_fb cm_df c = Inr r"
    and b: "bindE (mapE (city_metrics env pm_fb cm_df) cs) (\<lambda>ys. Inr (r # ys)) = Inr rows"
    by (auto elim: bindE_InrE)
  from b obtain rest where rest: "mapE (city_metrics env pm_fb cm_df) cs = Inr rest"
    and rows: "rows = r # rest"
    by (auto elim: bindE_InrE)
  obtain name lat lon where c: "c = (name, lat, lon)" by (cases c) auto
  from r c city_metrics_pm25 [of env pm_fb cm_df name lat lon r]
  have "resolve_pm25 (get_pm25_latest (http_get env) (fst (snd c)) (snd (snd c))
                       (OPENAQ_KEY env)) pm_fb (fst c) = Inr (pm25 r)"
    and "co2_of cm_df (fst c) = Inr (co2 r)"
    by simp_all
  with Cons.IH [OF rest] rows show ?case by simp
qed

lemma assemble_values:
  assumes "assemble env = Inr m"
  shows "\<exists>cm_df pm_fb pcol ccol.
           load_emissions env = Inr cm_df \<and> load_fallback env = Inr pm_fb
         \<and> getitem m ''pm25'' = Inr pcol \<and> getitem m ''co2'' = Inr ccol
         \<and> map Inr pcol =
             map (\<lambda>c. resolve_pm25 (get_pm25_latest (http_get env) (fst (snd c)) (snd (snd c))
                                      (OPENAQ_KEY env)) pm_fb (fst c)) CITIES
         \<and> map Inr ccol = map (\<lambda>c. co2_of cm_df (fst c)) CITIES"
proof -
  from assms obtain cm_df pm_fb rows where
    le: "load_emissions env = Inr cm_df" and lf: "load_fallback env = Inr pm_fb"
    and rows: "mapE (city_metrics env pm_fb cm_df) CITIES = Inr rows"
    and m: "m = setitem (DataFrame rows) ''tri_facilities'' (replicate (nrows (DataFrame rows)) (I 0))"
    unfolding assemble_def Let_def by (elim bindE_InrE) simp
  from mapE_length [OF rows] have "rows \<noteq> []" by (auto simp: CITIES_def)
  with m have g: "getitem m ''pm25'' = Inr (map pm25 rows)" "getitem m ''co2'' = Inr (map co2 rows)"
    by (simp_all add: DataFrame_def setitem_def columns_def getitem_def)
  from mapE_city_metrics_values [OF rows]
  have "map Inr (map pm25 rows) =
      map (\<lambda>c. resolve_pm25 (get_pm25_latest (http_get env) (fst (snd c)) (snd (snd c))
                               (OPENAQ_KEY env)) pm_fb (fst c)) CITIES"
    and "map Inr (map co2 rows) = map (\<lambda>c. co2_of cm_df (fst c)) CITIES"
    by (simp_all add: comp_def)
  with le lf g show ?thesis by blast
qed


text \<open>
  Claim C4.  The value of a city is resolved in the order fetch, fallback, missing: a
  fetched value that is not missing is kept whatever the fallback table holds; without
  a fallback table the fetched value stays; with a table (as \<^verbatim>\<open>read_csv\<close> delivers it,
  distinct labels) that has no row whose \<^verbatim>\<open>city\<close> equals the name, a missing value
  stays missing; with a table that has such a row, a missing value is replaced by the
  \<^verbatim>\<open>pm25\<close> value of the first such row.  The fallback table is \<^verbatim>\<open>None\<close> when the file
  is absent and the table read from the file otherwise.  In every run that assembles
  the metrics table, its \<^verbatim>\<open>pm25\<close> column holds, for each configured city in order, the
  value so resolved from what the fetcher returned for the coordinates of the city and
  from the fallback table of the run; a table that the run returns is that table.
\<close>

theorem pm25_priority_chain:
  "(\<not> isna fetched \<longrightarrow> resolve_pm25 fetched pm_fb name = Inr fetched)
 \<and> resolve_pm25 fetched None name = Inr fetched
 \<and> (distinct (columns fb) \<and> map_of fb ''city'' = Some cs \<and> S name \<notin> set cs \<longrightarrow>
      resolve_pm25 NA (Some fb) name = Inr NA)
 \<and> (distinct (columns fb) \<and> map_of fb ''city'' = Some cs \<and> map_of fb ''pm25'' = Some ps
      \<and> (\<forall>cv\<in>set fb. length (snd cv) = length cs)
      \<and> map_of (zip cs ps) (S name) = Some v \<longrightarrow>
      resolve_pm25 NA (Some fb) name = Inr v)
 \<and> (pm25_fallback_csv env = Absent \<longrightarrow> load_fallback env = Inr None)
 \<and> (pm25_fallback_csv env = Contents fb \<longrightarrow> load_fallback env = Inr (Some fb))
 \<and> (assemble env = Inr m \<longrightarrow>
      (\<exists>tbl col. load_fallback env = Inr tbl \<and> getitem m ''pm25'' = Inr col
         \<and> map Inr col =
             map (\<lambda>c. resolve_pm25 (get_pm25_latest (http_get env) (fst (snd c)) (snd (snd c))
                                      (OPENAQ_KEY env)) tbl (fst c)) CITIES))
 \<and> (main env = Inr m \<longrightarrow> assemble env = Inr m)"
proof (intro conjI impI)
  assume "\<not> isna fetched"
  then show "resolve_pm25 fetched pm_fb name = Inr fetched"
    by (cases pm_fb) (simp_all add: resolve_pm25_def)
next
  show "resolve_pm25 fetched None name = Inr fetched"
    by (simp add: resolve_pm25_def)
next
  assume "distinct (columns fb) \<and> map_of fb ''city'' = Some cs \<and> S name \<notin> set cs"
  then show "resolve_pm25 NA (Some fb) name = Inr NA"
    using resolve_no_row [of fb cs name] by simp
next
  assume "distinct (columns fb) \<and> map_of fb ''city'' = Some cs \<and> map_of fb ''pm25'' = Some ps
      \<and> (\<forall>cv\<in>set fb. length (snd cv) = length cs)
      \<and> map_of (zip cs ps) (S name) = Some v"
  then show "resolve_pm25 NA (Some fb) name = Inr v"
    using resolve_row [of fb cs ps name v] by simp
next
  assume "pm25_fallback_csv env = Absent"
  then show "load_fallback env = Inr None"
    using load_fallback_cases [of env fb] by simp
next
  assume "pm25_fallback_csv env = Contents fb"
  then show "load_fallback env = Inr (Some fb)"
    using load_fallback_cases [of env fb] by simp
next
  assume "assemble env = Inr m"
  from assemble_values [OF this]
  show "\<exists>tbl col. load_fallback env = Inr tbl \<and> getitem m ''pm25'' = Inr col
         \<and> map Inr col =
             map (\<lambda>c. resolve_pm25 (get_pm25_latest (http_get env) (fst (snd c)) (snd (snd c))
                                      (OPENAQ_KEY env)) tbl (fst c)) CITIES"
    by blast
next
  assume "main env = Inr m"
  from main_Inr [OF this] show "assemble env = Inr m" by simp
qed

theorem pm25_priority_chain_witness:
  "resolve_pm25 (N 5) (Some sample_fallback_ny) ''Chicago'' = Inr (N 5)
 \<and> resolve_pm25 NA None ''Chicago'' = Inr NA
 \<and> resolve_pm25 NA (Some sample_fallback_ny) ''Houston'' = Inr NA
 \<and> resolve_pm25 NA (Some sample_fallback_ny) ''Chicago'' = Inr (N 12.3)
 \<and> load_fallback offline_env = Inr None
 \<and> load_fallback sample_run_env = Inr (Some sample_fallback_ny)
 \<and> main sample_run_env = Inr sample_run_metrics
 \<and> getitem sample_run_metrics ''pm25'' = Inr [N 15, NA, N 12.3, NA, NA, NA, NA]
 \<and> map (\<lambda>c. resolve_pm25 (get_pm25_latest sample_http (fst (snd c)) (snd (snd c)) None)
              (Some sample_fallback_ny) (fst c)) CITIES =
     map Inr [N 15, NA, N 12.3, NA, NA, NA, NA]"
proof -
  let ?cs = "[S ''New York'', S ''Boston'', S ''Chicago'']"
  let ?ps = "[N 99, N 8, N 12.3]"
  have h0: "distinct (columns sample_fallback_ny)"
    by (simp add: sample_fallback_ny_def columns_def)
  have h1: "map_of sample_fallback_ny ''city'' = Some ?cs"
    and h2: "map_of sample_fallback_ny ''pm25'' = Some ?ps"
    and h3: "\<forall>cv\<in>set sample_fallback_ny. length (snd cv) = length ?cs"
    by (simp_all add: sample_fallback_ny_def)
  have h4: "S ''Houston'' \<notin> set ?cs" and h5: "map_of (zip ?cs ?ps) (S ''Chicago'') = Some (N 12.3)"
    and h6: "\<not> isna (N 5)"
    by (simp_all add: isna_def)
  have h7: "pm25_fallback_csv offline_env = Absent"
    "pm25_fallback_csv sample_run_env = Contents sample_fallback_ny"
    "http_get sample_run_env = sample_http" "OPENAQ_KEY sample_run_env = None"
    by (simp_all add: sample_run_env_def offline_env_def)
  have h8: "main sample_run_env = Inr sample_run_metrics"
    by code_simp
  have h9: "getitem sample_run_metrics ''pm25'' = Inr [N 15, NA, N 12.3, NA, NA, NA, NA]"
    by (simp add: sample_run_metrics_def getitem_def)
  note a = pm25_priority_chain [where fetched = "N 5" and pm_fb = "Some sample_fallback_ny"
      and name = "''Chicago''" and fb = sample_fallback_ny and cs = ?cs and ps = ?ps
      and v = "N 12.3" and env = sample_run_env and m = sample_run_metrics]
  note b = pm25_priority_chain [where fetched = NA and pm_fb = None
      and name = "''Houston''" and fb = sample_fallback_ny and cs = ?cs and ps = ?ps
      and v = NA and env = offline_env and m = sample_run_metrics]
  note c = pm25_priority_chain [where fetched = NA and name = "''Chicago''",
      THEN conjunct2, THEN conjunct1]
  from a h8 have asm: "assemble sample_run_env = Inr sample_run_metrics" by simp
  with a obtain tbl col where "load_fallback sample_run_env = Inr tbl"
    and "getitem sample_run_metrics ''pm25'' = Inr col"
    and "map Inr col =
             map (\<lambda>c. resolve_pm25 (get_pm25_latest (http_get sample_run_env) (fst (snd c))
                    (snd (snd c)) (OPENAQ_KEY sample_run_env)) tbl (fst c)) CITIES"
    by blast
  moreover from a h7 have "load_fallback sample_run_env = Inr (Some sample_fallback_ny)" by simp
  ultimately have d: "map (\<lambda>c. resolve_pm25 (get_pm25_latest sample_http (fst (snd c))
        (snd (snd c)) None) (Some sample_fallback_ny) (fst c)) CITIES =
      map Inr [N 15, NA, N 12.3, NA, NA, NA, NA]"
    using h7 h9 by simp
  from a b c d h0 h1 h2 h3 h4 h5 h6 h7 h8 h9 show ?thesis by simp
qed




end
